theory Spec2Isabelle
  imports Main
begin

section \<open>JavaScript values, arrays and strings\<close>

text \<open>
  The store of the ADR manager (\<^verbatim>\<open>src/plugins/store.js\<close>) is a JavaScript object that
  holds arrays of object references. Three features of the language decide the claims
  and are modelled as the language has them:
  \<^item> a property of an object can be absent, present with the value \<^verbatim>\<open>undefined\<close>, or
    present with a string (\<^verbatim>\<open>_.has\<close> and \<^verbatim>\<open>in\<close> test presence, \<^verbatim>\<open>===\<close> compares the
    value that a read returns);
  \<^item> objects are compared by reference (\<^verbatim>\<open>includes\<close>, \<^verbatim>\<open>indexOf\<close>, \<^verbatim>\<open>==\<close> on objects),
    and are mutated in place through every alias: objects live in a heap, arrays hold
    addresses;
  \<^item> \<^verbatim>\<open>findIndex\<close> answers \<^verbatim>\<open>-1\<close> when nothing is found, and \<^verbatim>\<open>splice\<close> counts a
    negative start from the end of the array.
\<close>

datatype jsprop = Absent | Undefined | Str string

text \<open>\<^verbatim>\<open>_.has(obj, key)\<close>: the property is present, whatever its value.\<close>

fun has :: "jsprop \<Rightarrow> bool" where
  "has Absent = False"
| "has Undefined = True"
| "has (Str s) = True"

text \<open>Reading a property: an absent property reads as \<^verbatim>\<open>undefined\<close> (\<open>None\<close>).\<close>

fun rd :: "jsprop \<Rightarrow> string option" where
  "rd Absent = None"
| "rd Undefined = None"
| "rd (Str s) = Some s"

text \<open>Assigning a value that was read: the property is present afterwards.\<close>

fun assigned :: "string option \<Rightarrow> jsprop" where
  "assigned None = Undefined"
| "assigned (Some v) = Str v"

datatype exn = TypeError | Thrown string

text \<open>\<^verbatim>\<open>xs[i]\<close>: \<^verbatim>\<open>undefined\<close> outside the array.\<close>

definition nth_js :: "'a list \<Rightarrow> nat \<Rightarrow> 'a option" where
  "nth_js xs i = (if i < length xs then Some (xs ! i) else None)"

text \<open>\<^verbatim>\<open>xs.includes(v)\<close> on an array of object references; \<^verbatim>\<open>undefined\<close> is no member.\<close>

definition includes_js :: "'a list \<Rightarrow> 'a option \<Rightarrow> bool" where
  "includes_js xs v = (case v of None \<Rightarrow> False | Some x \<Rightarrow> x \<in> set xs)"

text \<open>\<^verbatim>\<open>xs.findIndex(P)\<close> and \<^verbatim>\<open>xs.indexOf(v)\<close>: the first index, or \<^verbatim>\<open>-1\<close>.\<close>

fun findIndex :: "('a \<Rightarrow> bool) \<Rightarrow> 'a list \<Rightarrow> int" where
  "findIndex P [] = - 1"
| "findIndex P (x # xs) =
     (if P x then 0 else (let i = findIndex P xs in if i < 0 then - 1 else i + 1))"

definition indexOf :: "'a list \<Rightarrow> 'a \<Rightarrow> int" where
  "indexOf xs v = findIndex (\<lambda>x. x = v) xs"

text \<open>
  \<^verbatim>\<open>xs.splice(start, deleteCount, ...items)\<close>: the removed elements and the array
  afterwards. A negative start counts from the end, and the count is clamped to what
  is left.
\<close>

definition splice_js :: "int \<Rightarrow> nat \<Rightarrow> 'a list \<Rightarrow> 'a list \<Rightarrow> 'a list \<times> 'a list" where
  "splice_js start deleteCount items xs =
     (let len = int (length xs);
          from = nat (if start < 0 then max (len + start) 0 else min start len);
          cnt = min deleteCount (length xs - from)
      in (take cnt (drop from xs), take from xs @ items @ drop (from + cnt) xs))"

text \<open>\<^verbatim>\<open>s.split(c)\<close> for a one-character separator, and \<^verbatim>\<open>xs.join(sep)\<close>.\<close>

fun split_js :: "char \<Rightarrow> string \<Rightarrow> string list" where
  "split_js c [] = [[]]"
| "split_js c (x # xs) =
     (if x = c then [] # split_js c xs
      else (case split_js c xs of [] \<Rightarrow> [[x]] | y # ys \<Rightarrow> (x # y) # ys))"

fun join_js :: "string \<Rightarrow> string list \<Rightarrow> string" where
  "join_js sep [] = []"
| "join_js sep [x] = x"
| "join_js sep (x # y # ys) = x @ sep @ join_js sep (y # ys)"

section \<open>The data model\<close>

text \<open>
  An ADR object. \<open>originalMd\<close>, \<open>editedMd\<close> and \<open>path\<close> are the properties that
  \<^verbatim>\<open>isValidAdr\<close> asks for; \<open>newAdr\<close> is set to \<^verbatim>\<open>true\<close> by \<^verbatim>\<open>createNewAdr\<close> and removed
  by \<^verbatim>\<open>delete\<close> after a commit, and \<^verbatim>\<open>changedFilesInRepo\<close> tests its presence only.
  The id is a non-negative integer held in a JavaScript number (an IEEE double).
\<close>

record adr =
  originalMd :: jsprop
  editedMd :: jsprop
  path :: jsprop
  adr_id :: nat
  newAdr :: "bool option"

text \<open>
  A repository object. Its three arrays hold addresses of ADR objects;
  \<^verbatim>\<open>deleteAdr\<close> can push \<^verbatim>\<open>undefined\<close> onto \<open>deletedAdrs\<close>, so its entries are optional.
\<close>

record repository =
  fullName :: string
  activeBranch :: string
  branches :: "string list"
  adrs :: "nat list"
  addedAdrs :: "nat list"
  deletedAdrs :: "nat option list"

datatype event = OpenAdrEvent "nat option" | SetModeEvent string

text \<open>
  The store: the two heaps (ADR objects and repository objects by address, with the
  next free ADR address), the four data fields of the Vue instance, and the events
  emitted so far. Writing to local storage and to the console changes none of these
  and is left out.
\<close>

record store =
  adrObj :: "nat \<Rightarrow> adr"
  repoObj :: "nat \<Rightarrow> repository"
  nextAdr :: nat
  currentRepository :: "nat option"
  currentlyEditedAdr :: "nat option"
  addedRepositories :: "nat list"
  mode :: string
  emitted :: "event list"

section \<open>Opening an ADR\<close>

definition isValidAdr :: "store \<Rightarrow> nat option \<Rightarrow> bool" where
  "isValidAdr s adr =
     (case adr of
        None \<Rightarrow> False
      | Some a \<Rightarrow> has (originalMd (adrObj s a)) \<and> has (editedMd (adrObj s a))
                  \<and> has (path (adrObj s a)))"

definition openAdr :: "nat option \<Rightarrow> store \<Rightarrow> store" where
  "openAdr adr s =
     (if adr \<noteq> currentlyEditedAdr s then
        (let repo = find (\<lambda>r. includes_js (adrs (repoObj s r)) adr) (addedRepositories s)
         in if isValidAdr s adr \<and> repo \<noteq> None
            then s\<lparr>currentRepository := repo, currentlyEditedAdr := adr,
                   emitted := emitted s @ [OpenAdrEvent adr]\<rparr>
            else s)
      else s)"

definition adrs0 :: "store \<Rightarrow> nat \<Rightarrow> nat option" where
  "adrs0 s r = nth_js (adrs (repoObj s r)) 0"

definition openAnyAdr :: "store \<Rightarrow> store" where
  "openAnyAdr s =
     (let reposWithAdrs = filter (\<lambda>r. adrs0 s r \<noteq> None) (addedRepositories s)
      in if includes_js reposWithAdrs (currentRepository s)
         then openAdr (Option.bind (currentRepository s) (adrs0 s)) s
         else if length reposWithAdrs > 0
         then openAdr (Option.bind (nth_js reposWithAdrs 0) (adrs0 s)) s
         else if currentRepository s = None
         then s\<lparr>currentRepository := nth_js (addedRepositories s) 0\<rparr>
         else s)"

definition reachable :: "store \<Rightarrow> nat option \<Rightarrow> bool" where
  "reachable s adr = list_ex (\<lambda>r. includes_js (adrs (repoObj s r)) adr) (addedRepositories s)"

definition ensureSomeAdrIsOpened :: "store \<Rightarrow> store" where
  "ensureSomeAdrIsOpened s =
     (if currentlyEditedAdr s = None \<or> \<not> isValidAdr s (currentlyEditedAdr s)
         \<or> \<not> reachable s (currentlyEditedAdr s)
      then openAnyAdr (s\<lparr>currentlyEditedAdr := None, currentRepository := None\<rparr>)
      else s)"

section \<open>Adding, removing and replacing repositories\<close>

text \<open>
  An operation that can throw returns the exception (if any) together with the store
  as it is at that moment: what was assigned before the \<^verbatim>\<open>throw\<close> stays assigned.
\<close>

definition addRepositories :: "nat list \<Rightarrow> store \<Rightarrow> exn option \<times> store" where
  "addRepositories repoList s =
     (let alreadyAddedRepos =
            filter (\<lambda>repoToAdd. fullName (repoObj s repoToAdd)
                      \<in> set (map (\<lambda>repo. fullName (repoObj s repo)) (addedRepositories s)))
              repoList
      in if length alreadyAddedRepos > 0
         then (Some (Thrown (''I won'' @ [CHR 0x27] @ ''t add an already added repository to the store! ''
                       @ join_js '', '' (map (\<lambda>repo. fullName (repoObj s repo)) alreadyAddedRepos))), s)
         else (None, ensureSomeAdrIsOpened
                       (s\<lparr>addedRepositories := addedRepositories s @ repoList\<rparr>)))"

definition removeRepository :: "nat \<Rightarrow> store \<Rightarrow> store" where
  "removeRepository repoToRemove s =
     ensureSomeAdrIsOpened
       (s\<lparr>addedRepositories :=
            filter (\<lambda>repo. fullName (repoObj s repo) \<noteq> fullName (repoObj s repoToRemove))
              (addedRepositories s)\<rparr>)"

text \<open>
  \<^verbatim>\<open>updateRepository\<close>: when no added repository has the name, \<open>index\<close> is \<^verbatim>\<open>-1\<close>,
  \<open>oldRepo\<close> is \<^verbatim>\<open>undefined\<close>, the splice still runs, and reading \<^verbatim>\<open>oldRepo.adrs\<close> throws.
\<close>

definition updateRepository :: "nat \<Rightarrow> store \<Rightarrow> exn option \<times> store" where
  "updateRepository updatedRepository s =
     (let index = findIndex (\<lambda>repo. fullName (repoObj s repo)
                                      = fullName (repoObj s updatedRepository))
                    (addedRepositories s);
          oldRepo = (if index < 0 then None else nth_js (addedRepositories s) (nat index));
          s1 = s\<lparr>addedRepositories :=
                   snd (splice_js index 1 [updatedRepository] (addedRepositories s))\<rparr>
      in case oldRepo of
           None \<Rightarrow> (Some TypeError, s1)
         | Some old \<Rightarrow>
             (None,
              if includes_js (adrs (repoObj s1 old)) (currentlyEditedAdr s1)
              then openAdr
                     (find (\<lambda>adr. rd (path (adrObj s1 adr))
                                   = Option.bind (currentlyEditedAdr s1)
                                       (\<lambda>c. rd (path (adrObj s1 c))))
                        (adrs (repoObj s1 updatedRepository)))
                     s1
              else s1))"

section \<open>Creating and deleting ADRs\<close>

text \<open>
  \<^verbatim>\<open>deleteAdr\<close>. The guard \<^verbatim>\<open>if (!repo.deletedAdrs)\<close> does nothing on a repository
  that has the array (an array is truthy, also when empty). The index that
  \<^verbatim>\<open>findIndex\<close> answers goes to \<^verbatim>\<open>splice\<close> as it is.
\<close>

definition deleteAdr :: "nat \<Rightarrow> nat \<Rightarrow> store \<Rightarrow> store" where
  "deleteAdr adr repo s =
     (let r = repoObj s repo;
          adrIndexAdr = findIndex (\<lambda>adrEl. adrEl = adr) (adrs r);
          adrIndexNewAdr = findIndex (\<lambda>adrEl. adrEl = adr) (addedAdrs r);
          spliced = splice_js adrIndexAdr 1 [] (adrs r);
          file = nth_js (fst spliced) 0;
          r1 = r\<lparr>adrs := snd spliced\<rparr>;
          r2 = (if adrIndexNewAdr \<ge> 0
                then r1\<lparr>addedAdrs := snd (splice_js adrIndexNewAdr 1 [] (addedAdrs r1))\<rparr>
                else r1\<lparr>deletedAdrs := deletedAdrs r1 @ [file]\<rparr>)
      in ensureSomeAdrIsOpened (s\<lparr>repoObj := (repoObj s)(repo := r2)\<rparr>))"

text \<open>
  \<^verbatim>\<open>Math.max(...xs, d)\<close>, \<^verbatim>\<open>x + 1\<close>, \<^verbatim>\<open>n.toString()\<close> and \<^verbatim>\<open>s.padStart(n, c)\<close>.
  JavaScript numbers are IEEE doubles. \<^verbatim>\<open>x + 1\<close> is exact for an integer \<open>x\<close> from \<^verbatim>\<open>-1\<close>
  up to \<open>2\<^sup>5\<^sup>3 - 1 = 9007199254740991\<close>. From \<open>2\<^sup>5\<^sup>3\<close> on the doubles are the even
  integers, \<open>x + 1\<close> lies half way between two of them, and the sum is the one with the
  even significand; from \<open>2\<^sup>5\<^sup>4 = 18014398509481984\<close> on the doubles are four or more
  apart and the sum is \<open>x\<close> again. \<^verbatim>\<open>n.toString()\<close> gives the decimal digits of a
  non-negative integer up to \<open>2\<^sup>5\<^sup>3\<close>.
\<close>

definition math_max :: "int list \<Rightarrow> int \<Rightarrow> int" where
  "math_max xs d = foldr max xs d"

definition number_add1 :: "int \<Rightarrow> int" where
  "number_add1 x =
     (if x < 9007199254740992 then x + 1
      else if x < 18014398509481984 then (if even (x div 2) then x else x + 2)
      else x)"

fun toString :: "nat \<Rightarrow> string" where
  "toString n =
     (if n < 10 then [''0123456789'' ! n]
      else toString (n div 10) @ [''0123456789'' ! (n mod 10)])"

definition padStart :: "nat \<Rightarrow> char \<Rightarrow> string \<Rightarrow> string" where
  "padStart n c str = replicate (n - length str) c @ str"

text \<open>
  Modelled from the spec: \<^verbatim>\<open>Repository.addAdr\<close> is a method of \<^verbatim>\<open>classes.js\<close>, which is
  not among the sources. The spec says that \<^verbatim>\<open>createNewAdr\<close> "registers it in the
  repository (\<open>adrs\<close> and \<open>addedAdrs\<close>)": the new ADR is pushed onto both arrays.
\<close>

definition addAdr :: "nat \<Rightarrow> nat \<Rightarrow> store \<Rightarrow> store" where
  "addAdr repo a s =
     s\<lparr>repoObj := (repoObj s)
          (repo := (repoObj s repo)\<lparr>adrs := adrs (repoObj s repo) @ [a],
                                    addedAdrs := addedAdrs (repoObj s repo) @ [a]\<rparr>)\<rparr>"

text \<open>
  \<^verbatim>\<open>createNewAdr\<close>. The template ADR of \<^verbatim>\<open>ArchitecturalDecisionRecord.createNewAdr()\<close>
  and its Markdown \<^verbatim>\<open>adr2md(adr)\<close> come from files that are not among the sources; the
  template's title and Markdown are parameters. The new object gets the next free
  address.
\<close>

definition createNewAdr :: "string \<Rightarrow> string \<Rightarrow> nat \<Rightarrow> store \<Rightarrow> nat option \<times> store" where
  "createNewAdr tmplTitle tmplMd repo s =
     (if repo \<in> set (addedRepositories s) then
        (let md = tmplMd;
             idn = nat (number_add1
                          (math_max (map (\<lambda>a. int (adr_id (adrObj s a)))
                                       (adrs (repoObj s repo)))
                             (- 1)));
             newAdrObj = \<lparr>originalMd = Str [], editedMd = Str md,
                          path = Str (''docs/adr/'' @ padStart 4 (CHR ''0'') (toString idn)
                                        @ ''-'' @ tmplTitle @ ''.md''),
                          adr_id = idn, newAdr = Some True\<rparr>;
             a = nextAdr s;
             s1 = s\<lparr>adrObj := (adrObj s)(a := newAdrObj), nextAdr := Suc a\<rparr>
         in (Some a, addAdr repo a s1))
      else (None, s))"

section \<open>Editing the open ADR\<close>






section \<open>The files of a commit\<close>

record commitFile =
  title :: "string option"
  file_value :: jsprop
  file_path :: string
  fileSelected :: bool
  fileStatus :: string

text \<open>A \<^verbatim>\<open>for ... of\<close> loop that pushes onto one result array: the body gives what one
  iteration pushes, or the exception it throws.\<close>

fun for_collect :: "('a \<Rightarrow> exn + 'b list) \<Rightarrow> 'a list \<Rightarrow> 'b list \<Rightarrow> exn + 'b list" where
  "for_collect body [] acc = Inr acc"
| "for_collect body (x # xs) acc =
     (case body x of Inl e \<Rightarrow> Inl e | Inr ys \<Rightarrow> for_collect body xs (acc @ ys))"

text \<open>\<^verbatim>\<open>file.path.split("/")\<close> throws when the path reads \<^verbatim>\<open>undefined\<close>; a path of fewer
  than three segments gives the title \<^verbatim>\<open>undefined\<close>.\<close>

definition dataStructureDataCommit :: "adr \<Rightarrow> string \<Rightarrow> exn + commitFile" where
  "dataStructureDataCommit file fileType =
     (case rd (path file) of
        None \<Rightarrow> Inl TypeError
      | Some p \<Rightarrow>
          Inr \<lparr>title = nth_js (split_js (CHR ''/'') p) 2,
               file_value = assigned (rd (editedMd file)),
               file_path = p, fileSelected = False, fileStatus = fileType\<rparr>)"

definition changedFilesInRepo :: "string \<Rightarrow> store \<Rightarrow> exn + commitFile list" where
  "changedFilesInRepo repoName s =
     for_collect
       (\<lambda>repo. if repoName = fullName (repoObj s repo)
               then for_collect
                      (\<lambda>changedFile.
                         if newAdr (adrObj s changedFile) = None
                         then if rd (editedMd (adrObj s changedFile))
                                   \<noteq> rd (originalMd (adrObj s changedFile))
                              then (case dataStructureDataCommit (adrObj s changedFile) ''changed'' of
                                      Inl e \<Rightarrow> Inl e | Inr f \<Rightarrow> Inr [f])
                              else Inr []
                         else Inr [])
                      (adrs (repoObj s repo)) []
               else Inr [])
       (addedRepositories s) []"

definition deletedFilesInRepo :: "string \<Rightarrow> store \<Rightarrow> exn + commitFile list" where
  "deletedFilesInRepo repoName s =
     for_collect
       (\<lambda>repo. if repoName = fullName (repoObj s repo)
               then for_collect
                      (\<lambda>deletedFile.
                         case Option.bind deletedFile (\<lambda>d. rd (path (adrObj s d))) of
                           None \<Rightarrow> Inl TypeError
                         | Some p \<Rightarrow>
                             Inr [\<lparr>title = nth_js (split_js (CHR ''/'') p) 2,
                                   file_value = Absent, file_path = p,
                                   fileSelected = False, fileStatus = ''deleted''\<rparr>])
                      (deletedAdrs (repoObj s repo)) []
               else Inr [])
       (addedRepositories s) []"

definition newFilesInRepo :: "string \<Rightarrow> store \<Rightarrow> exn + commitFile list" where
  "newFilesInRepo repoName s =
     for_collect
       (\<lambda>repo. if repoName = fullName (repoObj s repo)
               then for_collect
                      (\<lambda>newFile.
                         case dataStructureDataCommit (adrObj s newFile) ''new'' of
                           Inl e \<Rightarrow> Inl e | Inr f \<Rightarrow> Inr [f])
                      (addedAdrs (repoObj s repo)) []
               else Inr [])
       (addedRepositories s) []"

section \<open>After a commit\<close>

record pushedFile =
  pushed_type :: string
  pushed_path :: string

text \<open>
  A \<^verbatim>\<open>for ... of\<close> loop whose body splices the array it walks. The iterator keeps an
  index: after an entry is removed, the next entry read is the one two places further
  in the old array.
\<close>

function spliceLoop :: "('a \<Rightarrow> exn + bool) \<Rightarrow> nat \<Rightarrow> 'a list \<Rightarrow> exn option \<times> 'a list" where
  "spliceLoop matches i xs =
     (if i < length xs then
        (case matches (xs ! i) of
           Inl e \<Rightarrow> (Some e, xs)
         | Inr b \<Rightarrow>
             if b then spliceLoop matches (i + 1) (snd (splice_js (indexOf xs (xs ! i)) 1 [] xs))
             else spliceLoop matches (i + 1) xs)
      else (None, xs))"
  by pat_completeness auto
termination
  by (relation "measure (\<lambda>(matches, i, xs). length xs - i)")
     (auto simp: splice_js_def Let_def)

text \<open>A \<^verbatim>\<open>for ... of\<close> loop over an array that the body leaves alone, threading the
  store and stopping at the first exception.\<close>

fun for_of :: "('a \<Rightarrow> 's \<Rightarrow> exn option \<times> 's) \<Rightarrow> 'a list \<Rightarrow> 's \<Rightarrow> exn option \<times> 's" where
  "for_of body [] s = (None, s)"
| "for_of body (x # xs) s =
     (case body x s of (Some e, s') \<Rightarrow> (Some e, s') | (None, s') \<Rightarrow> for_of body xs s')"

definition settle :: "bool \<Rightarrow> string \<Rightarrow> nat \<Rightarrow> store \<Rightarrow> exn option \<times> store" where
  "settle isNew p repoEntry s =
     (if Some p = rd (path (adrObj s repoEntry))
      then (None,
            s\<lparr>adrObj := (adrObj s)
                 (repoEntry :=
                    (adrObj s repoEntry)
                      \<lparr>originalMd := assigned (rd (editedMd (adrObj s repoEntry))),
                       newAdr := (if isNew then None else newAdr (adrObj s repoEntry))\<rparr>)\<rparr>)
      else (None, s))"

definition handleUpdateLocalStorageNew :: "pushedFile \<Rightarrow> string \<Rightarrow> store \<Rightarrow> exn option \<times> store" where
  "handleUpdateLocalStorageNew file repoName s =
     for_of
       (\<lambda>repo s.
          if repoName = fullName (repoObj s repo) then
            (let spliced = spliceLoop (\<lambda>repoEntry. Inr (Some (pushed_path file)
                                                          = rd (path (adrObj s repoEntry))))
                             0 (addedAdrs (repoObj s repo));
                 s1 = s\<lparr>repoObj := (repoObj s)
                          (repo := (repoObj s repo)\<lparr>addedAdrs := snd spliced\<rparr>)\<rparr>
             in for_of (settle True (pushed_path file)) (adrs (repoObj s1 repo)) s1)
          else (None, s))
       (addedRepositories s) s"

definition handleUpdateLocalStorageChanged :: "pushedFile \<Rightarrow> string \<Rightarrow> store \<Rightarrow> exn option \<times> store" where
  "handleUpdateLocalStorageChanged file repoName s =
     for_of
       (\<lambda>repo s.
          if repoName = fullName (repoObj s repo)
          then for_of (settle False (pushed_path file)) (adrs (repoObj s repo)) s
          else (None, s))
       (addedRepositories s) s"

definition handleUpdateLocalStorageDeleted :: "pushedFile \<Rightarrow> string \<Rightarrow> store \<Rightarrow> exn option \<times> store" where
  "handleUpdateLocalStorageDeleted file repoName s =
     for_of
       (\<lambda>repo s.
          if repoName = fullName (repoObj s repo) then
            (let spliced = spliceLoop
                             (\<lambda>repoEntry.
                                case repoEntry of
                                  None \<Rightarrow> Inl TypeError
                                | Some d \<Rightarrow> Inr (Some (pushed_path file) = rd (path (adrObj s d))))
                             0 (deletedAdrs (repoObj s repo))
             in (fst spliced,
                 s\<lparr>repoObj := (repoObj s)
                      (repo := (repoObj s repo)\<lparr>deletedAdrs := snd spliced\<rparr>)\<rparr>))
          else (None, s))
       (addedRepositories s) s"

definition updateLocalStorageAfterCommit ::
  "pushedFile list \<Rightarrow> string \<Rightarrow> store \<Rightarrow> exn option \<times> store" where
  "updateLocalStorageAfterCommit pushedFiles repoName s =
     for_of
       (\<lambda>file s.
          if pushed_type file = ''new'' then handleUpdateLocalStorageNew file repoName s
          else if pushed_type file = ''changed'' then handleUpdateLocalStorageChanged file repoName s
          else if pushed_type file = ''deleted'' then handleUpdateLocalStorageDeleted file repoName s
          else (None, s))
       pushedFiles s"

text \<open>The equations of the two functions that recur on a computed argument are
  unfolded on request only.\<close>

declare toString.simps [simp del]

declare spliceLoop.simps [simp del]

section \<open>What the three lists hold\<close>

text \<open>
  The ADRs that each list is made from, and the record made from each. \<open>reposNamed\<close>
  are the added repositories with the name asked for, in the order of
  \<open>addedRepositories\<close>. \<open>changedAdrs\<close> is what \<^verbatim>\<open>changedFilesInRepo\<close> selects: the
  entries of \<open>adrs\<close> that have no \<^verbatim>\<open>newAdr\<close> property and whose \<open>editedMd\<close> differs
  from \<open>originalMd\<close>.
\<close>

definition commitFileOf :: "adr \<Rightarrow> string \<Rightarrow> commitFile" where
  "commitFileOf file fileType =
     \<lparr>title = Option.bind (rd (path file)) (\<lambda>p. nth_js (split_js (CHR ''/'') p) 2),
      file_value = assigned (rd (editedMd file)),
      file_path = (case rd (path file) of None \<Rightarrow> [] | Some p \<Rightarrow> p),
      fileSelected = False, fileStatus = fileType\<rparr>"

definition hasPath :: "store \<Rightarrow> nat \<Rightarrow> bool" where
  "hasPath s a = (rd (path (adrObj s a)) \<noteq> None)"

definition reposNamed :: "string \<Rightarrow> store \<Rightarrow> nat list" where
  "reposNamed repoName s =
     filter (\<lambda>repo. repoName = fullName (repoObj s repo)) (addedRepositories s)"

definition changedAdrs :: "string \<Rightarrow> store \<Rightarrow> nat list" where
  "changedAdrs repoName s =
     concat (map (\<lambda>repo. filter (\<lambda>a. newAdr (adrObj s a) = None
                                     \<and> rd (editedMd (adrObj s a)) \<noteq> rd (originalMd (adrObj s a)))
                            (adrs (repoObj s repo)))
               (reposNamed repoName s))"

text \<open>
  The selection as the specification words it: \<^verbatim>\<open>newAdr\<close> is a boolean whose absence
  means false, so an ADR is flagged as new exactly when the property is \<^verbatim>\<open>true\<close>.
\<close>

definition changedAdrs_spec :: "string \<Rightarrow> store \<Rightarrow> nat list" where
  "changedAdrs_spec repoName s =
     concat (map (\<lambda>repo. filter (\<lambda>a. newAdr (adrObj s a) \<noteq> Some True
                                     \<and> rd (editedMd (adrObj s a)) \<noteq> rd (originalMd (adrObj s a)))
                            (adrs (repoObj s repo)))
               (reposNamed repoName s))"

definition newAdrsOf :: "string \<Rightarrow> store \<Rightarrow> nat list" where
  "newAdrsOf repoName s =
     concat (map (\<lambda>repo. addedAdrs (repoObj s repo)) (reposNamed repoName s))"

definition deletedAdrsOf :: "string \<Rightarrow> store \<Rightarrow> nat option list" where
  "deletedAdrsOf repoName s =
     concat (map (\<lambda>repo. deletedAdrs (repoObj s repo)) (reposNamed repoName s))"

definition pathOfEntry :: "store \<Rightarrow> nat option \<Rightarrow> string option" where
  "pathOfEntry s d = Option.bind d (\<lambda>x. rd (path (adrObj s x)))"

definition deletedFileOf :: "store \<Rightarrow> nat option \<Rightarrow> commitFile" where
  "deletedFileOf s d =
     \<lparr>title = Option.bind (pathOfEntry s d) (\<lambda>p. nth_js (split_js (CHR ''/'') p) 2),
      file_value = Absent,
      file_path = (case pathOfEntry s d of None \<Rightarrow> [] | Some p \<Rightarrow> p),
      fileSelected = False, fileStatus = ''deleted''\<rparr>"

text \<open>
  The invariants of a repository in the data model of the specification: every ADR
  of \<open>adrs\<close> is valid and has a path, the paths of \<open>adrs\<close> are pairwise different,
  \<open>addedAdrs\<close> is a part of \<open>adrs\<close>, an ADR of \<open>adrs\<close> is flagged new exactly when it is
  in \<open>addedAdrs\<close>, and every entry of \<open>deletedAdrs\<close> is a valid ADR with a path that was
  removed from \<open>adrs\<close>. \<open>noPathReuse\<close> is not among them: no entry of \<open>deletedAdrs\<close> has
  the path of an entry of \<open>adrs\<close>.
\<close>

definition repositoryInvariants_spec :: "store \<Rightarrow> nat \<Rightarrow> bool" where
  "repositoryInvariants_spec s repo =
     (list_all (\<lambda>a. isValidAdr s (Some a) \<and> hasPath s a) (adrs (repoObj s repo))
      \<and> distinct (map (\<lambda>a. rd (path (adrObj s a))) (adrs (repoObj s repo)))
      \<and> set (addedAdrs (repoObj s repo)) \<subseteq> set (adrs (repoObj s repo))
      \<and> list_all (\<lambda>a. (newAdr (adrObj s a) = Some True) = (a \<in> set (addedAdrs (repoObj s repo))))
           (adrs (repoObj s repo))
      \<and> list_all (\<lambda>d. pathOfEntry s d \<noteq> None \<and> isValidAdr s d
                        \<and> d \<notin> Some ` set (adrs (repoObj s repo)))
           (deletedAdrs (repoObj s repo)))"

definition noPathReuse :: "store \<Rightarrow> nat \<Rightarrow> bool" where
  "noPathReuse s repo =
     list_all (\<lambda>d. list_all (\<lambda>a. pathOfEntry s d \<noteq> rd (path (adrObj s a)))
                      (adrs (repoObj s repo)))
       (deletedAdrs (repoObj s repo))"

section \<open>What a commit settles\<close>

text \<open>
  The effect of one pushed file on the repository \<open>r\<close> when every matching entry is
  found: a \<^verbatim>\<open>new\<close> file leaves \<open>addedAdrs\<close> without the entries at its path and
  settles the entries of \<open>adrs\<close> at its path (the baseline becomes the edited text, the
  \<^verbatim>\<open>newAdr\<close> property goes); a \<^verbatim>\<open>changed\<close> file settles the baseline only; a
  \<^verbatim>\<open>deleted\<close> file leaves \<open>deletedAdrs\<close> without the entries at its path.
  \<open>commitWellFormed\<close> says that the added repositories have pairwise different names
  and that, in the repository named, no two entries of \<open>addedAdrs\<close> and no two entries
  of \<open>deletedAdrs\<close> have the same path, and no entry of \<open>deletedAdrs\<close> is \<^verbatim>\<open>undefined\<close>.
\<close>

definition settled :: "bool \<Rightarrow> adr \<Rightarrow> adr" where
  "settled isNew obj =
     obj\<lparr>originalMd := assigned (rd (editedMd obj)),
         newAdr := (if isNew then None else newAdr obj)\<rparr>"

definition commitLists :: "pushedFile \<Rightarrow> (nat \<Rightarrow> string option) \<Rightarrow> repository \<Rightarrow> repository" where
  "commitLists file pth R =
     (if pushed_type file = ''new''
      then R\<lparr>addedAdrs := filter (\<lambda>a. pth a \<noteq> Some (pushed_path file)) (addedAdrs R)\<rparr>
      else if pushed_type file = ''deleted''
      then R\<lparr>deletedAdrs := filter (\<lambda>d. Option.bind d pth \<noteq> Some (pushed_path file))
                               (deletedAdrs R)\<rparr>
      else R)"

definition commitObj :: "pushedFile \<Rightarrow> nat list \<Rightarrow> nat \<Rightarrow> adr \<Rightarrow> adr" where
  "commitObj file as a obj =
     (if (pushed_type file = ''new'' \<or> pushed_type file = ''changed'')
         \<and> a \<in> set as \<and> rd (path obj) = Some (pushed_path file)
      then settled (pushed_type file = ''new'') obj
      else obj)"

definition committed :: "pushedFile \<Rightarrow> nat \<Rightarrow> store \<Rightarrow> store" where
  "committed file r s =
     s\<lparr>repoObj := (repoObj s)
           (r := commitLists file (\<lambda>a. rd (path (adrObj s a))) (repoObj s r)),
       adrObj := (\<lambda>a. commitObj file (adrs (repoObj s r)) a (adrObj s a))\<rparr>"

definition commitWellFormed :: "string \<Rightarrow> store \<Rightarrow> bool" where
  "commitWellFormed repoName s =
     (distinct (map (\<lambda>r. fullName (repoObj s r)) (addedRepositories s))
      \<and> list_all (\<lambda>r. distinct (map (\<lambda>a. rd (path (adrObj s a))) (addedAdrs (repoObj s r)))
                       \<and> list_all (\<lambda>d. d \<noteq> None) (deletedAdrs (repoObj s r))
                       \<and> distinct (map (pathOfEntry s) (deletedAdrs (repoObj s r))))
           (reposNamed repoName s))"

definition committedAll :: "pushedFile \<Rightarrow> string \<Rightarrow> store \<Rightarrow> store" where
  "committedAll file repoName s =
     (case reposNamed repoName s of [] \<Rightarrow> s | r # _ \<Rightarrow> committed file r s)"

section \<open>Example stores\<close>

text \<open>
  The stores at which the theorems below are instantiated. \<open>repoA\<close> is a repository
  \<^verbatim>\<open>o/r\<close> with one published ADR (object 0) that was edited since; \<open>repoB\<close> is a fresh
  copy of \<^verbatim>\<open>o/r\<close> from the remote in which that file is gone; \<open>repoE\<close> and \<open>repoG\<close>
  are empty repositories \<^verbatim>\<open>o/e\<close> and \<^verbatim>\<open>o/g\<close>. In \<open>emptyStore\<close> these objects exist
  (at the addresses 0, 1, 2 and 3) and none is added.
\<close>

definition adrA :: adr where
  "adrA = \<lparr>originalMd = Str ''old'', editedMd = Str ''new'',
           path = Str ''docs/adr/0000-a.md'', adr_id = 0, newAdr = None\<rparr>"

definition repoA :: repository where
  "repoA = \<lparr>fullName = ''o/r'', activeBranch = ''main'', branches = [''main''],
            adrs = [0], addedAdrs = [], deletedAdrs = []\<rparr>"

definition repoB :: repository where
  "repoB = \<lparr>fullName = ''o/r'', activeBranch = ''main'', branches = [''main''],
            adrs = [], addedAdrs = [], deletedAdrs = []\<rparr>"

definition repoE :: repository where
  "repoE = \<lparr>fullName = ''o/e'', activeBranch = ''main'', branches = [''main''],
            adrs = [], addedAdrs = [], deletedAdrs = []\<rparr>"

definition repoG :: repository where
  "repoG = \<lparr>fullName = ''o/g'', activeBranch = ''main'', branches = [''main''],
            adrs = [], addedAdrs = [], deletedAdrs = []\<rparr>"

definition emptyStore :: store where
  "emptyStore =
     \<lparr>adrObj = (\<lambda>_. adrA), repoObj = (\<lambda>_. repoE)(0 := repoA, 1 := repoB, 3 := repoG),
      nextAdr = 1,
      currentRepository = None, currentlyEditedAdr = None, addedRepositories = [],
      mode = ''basic'', emitted = []\<rparr>"

definition storeA :: store where
  "storeA = snd (addRepositories [0] emptyStore)"

definition closedStore :: store where
  "closedStore = emptyStore\<lparr>addedRepositories := [0]\<rparr>"

definition storeN :: store where
  "storeN = snd (createNewAdr ''title'' ''# title'' 0 storeA)"

text \<open>\<open>storeBig\<close>: the store \<open>storeA\<close> with ADR objects whose id is \<open>2\<^sup>5\<^sup>3\<close>.\<close>

definition storeBig :: store where
  "storeBig = storeA\<lparr>adrObj := (\<lambda>_. adrA\<lparr>adr_id := 9007199254740992\<rparr>)\<rparr>"

text \<open>\<open>storeF\<close>: the store \<open>closedStore\<close> with ADR objects that carry \<^verbatim>\<open>newAdr: false\<close>.\<close>

definition storeF :: store where
  "storeF = closedStore\<lparr>adrObj := (\<lambda>_. adrA\<lparr>newAdr := Some False\<rparr>)\<rparr>"




text \<open>
  A history of the empty repository \<^verbatim>\<open>o/e\<close> (object 2): an ADR is created
  (\<open>storeE1\<close>), published (\<open>storeE2\<close>) and deleted (\<open>storeE3\<close>); a second ADR is
  created, which gets the id and the path of the first (\<open>storeE4\<close>), published
  (\<open>storeE5\<close>) and deleted (\<open>storeE6\<close>). \<open>storeE\<close> is the shape of all these stores.
\<close>

definition pushedNew :: pushedFile where
  "pushedNew = \<lparr>pushed_type = ''new'', pushed_path = ''docs/adr/0000-title.md''\<rparr>"

definition pushedDeleted :: pushedFile where
  "pushedDeleted = \<lparr>pushed_type = ''deleted'', pushed_path = ''docs/adr/0000-title.md''\<rparr>"

definition adrT :: adr where
  "adrT = \<lparr>originalMd = Str [], editedMd = Str ''# title'',
           path = Str ''docs/adr/0000-title.md'', adr_id = 0, newAdr = Some True\<rparr>"

definition adrP :: adr where
  "adrP = \<lparr>originalMd = Str ''# title'', editedMd = Str ''# title'',
           path = Str ''docs/adr/0000-title.md'', adr_id = 0, newAdr = None\<rparr>"

definition storeE :: "adr \<Rightarrow> adr \<Rightarrow> nat \<Rightarrow> nat list \<Rightarrow> nat list \<Rightarrow> nat option list \<Rightarrow> store" where
  "storeE a1 a2 n as ads ds =
     \<lparr>adrObj = (\<lambda>_. adrA)(1 := a1, 2 := a2),
      repoObj = (\<lambda>_. repoE)(0 := repoA, 1 := repoB, 3 := repoG,
                  2 := repoE\<lparr>adrs := as, addedAdrs := ads, deletedAdrs := ds\<rparr>),
      nextAdr = n, currentRepository = Some 2, currentlyEditedAdr = None,
      addedRepositories = [2], mode = ''basic'', emitted = []\<rparr>"

definition storeE0 :: store where
  "storeE0 = snd (addRepositories [2] emptyStore)"

definition storeE1 :: store where
  "storeE1 = snd (createNewAdr ''title'' ''# title'' 2 storeE0)"

definition storeE2 :: store where
  "storeE2 = snd (updateLocalStorageAfterCommit [pushedNew] ''o/e'' storeE1)"

definition storeE3 :: store where
  "storeE3 = deleteAdr 1 2 storeE2"

definition storeE4 :: store where
  "storeE4 = snd (createNewAdr ''title'' ''# title'' 2 storeE3)"

definition storeE5 :: store where
  "storeE5 = snd (updateLocalStorageAfterCommit [pushedNew] ''o/e'' storeE4)"

definition storeE6 :: store where
  "storeE6 = deleteAdr 2 2 storeE5"

text \<open>\<open>storeW\<close>: repository \<^verbatim>\<open>o/r\<close> with an edited ADR (object 0), a new one (object 1)
  and a deleted one (object 2).\<close>

definition adrB :: adr where
  "adrB = \<lparr>originalMd = Str [], editedMd = Str ''# b'',
           path = Str ''docs/adr/0001-b.md'', adr_id = 1, newAdr = Some True\<rparr>"

definition adrC :: adr where
  "adrC = \<lparr>originalMd = Str ''# c'', editedMd = Str ''# c'',
           path = Str ''docs/adr/0002-c.md'', adr_id = 2, newAdr = None\<rparr>"

definition storeW :: store where
  "storeW =
     \<lparr>adrObj = (\<lambda>_. adrA)(1 := adrB, 2 := adrC),
      repoObj = (\<lambda>_. repoE)
                  (0 := repoA\<lparr>adrs := [0, 1], addedAdrs := [1], deletedAdrs := [Some 2]\<rparr>),
      nextAdr = 3, currentRepository = Some 0, currentlyEditedAdr = Some 0,
      addedRepositories = [0], mode = ''basic'', emitted = []\<rparr>"

section \<open>The invariant of the open ADR\<close>

text \<open>
  The store's invariant: whenever \<open>currentlyEditedAdr\<close> is set, it is a valid ADR and
  it is in the \<open>adrs\<close> of some repository of \<open>addedRepositories\<close>. These are the two
  tests that \<^verbatim>\<open>ensureSomeAdrIsOpened\<close> makes.
\<close>

definition openedAdrInvariant :: "store \<Rightarrow> bool" where
  "openedAdrInvariant s =
     (currentlyEditedAdr s = None
      \<or> (isValidAdr s (currentlyEditedAdr s) \<and> reachable s (currentlyEditedAdr s)))"

section \<open>Theorems\<close>

subsection \<open>Evaluation of the example stores\<close>

lemmas example_defs =
  emptyStore_def closedStore_def storeA_def storeN_def adrA_def repoA_def repoB_def
  repoE_def repoG_def

lemmas commit_defs =
  updateLocalStorageAfterCommit_def handleUpdateLocalStorageNew_def
  handleUpdateLocalStorageChanged_def handleUpdateLocalStorageDeleted_def settle_def
  spliceLoop.simps splice_js_def indexOf_def pushedNew_def pushedDeleted_def

lemmas diff_defs =
  changedFilesInRepo_def newFilesInRepo_def deletedFilesInRepo_def
  dataStructureDataCommit_def nth_js_def reposNamed_def repositoryInvariants_spec_def
  noPathReuse_def pathOfEntry_def hasPath_def isValidAdr_def

lemmas open_defs =
  addRepositories_def ensureSomeAdrIsOpened_def openAnyAdr_def openAdr_def adrs0_def
  nth_js_def includes_js_def isValidAdr_def reachable_def Let_def

lemma find_includes_Some:
  "find (\<lambda>r. includes_js (adrs (repoObj s r)) adr) rs = Some r
   \<Longrightarrow> r \<in> set rs \<and> includes_js (adrs (repoObj s r)) adr"
  by (induction rs) (auto split: if_splits)

lemma find_includes_None:
  "(find (\<lambda>r. includes_js (adrs (repoObj s r)) adr) rs = None) = (\<not> reachable (s\<lparr>addedRepositories := rs\<rparr>) adr)"
  by (induction rs) (auto simp: reachable_def)

lemma toString_0: "toString 0 = ''0''"
  by (simp add: toString.simps)

lemma padStart_0: "padStart 4 (CHR ''0'') ''0'' = ''0000''"
  by (simp add: padStart_def numeral_eq_Suc)



lemma toString_Suc0: "toString (Suc 0) = ''1''"
  by (simp add: toString.simps)

lemma padStart_1: "padStart 4 (CHR ''0'') ''1'' = ''0001''"
  by (simp add: padStart_def numeral_eq_Suc)

subsection \<open>What opening an ADR leaves alone\<close>

lemma openAdr_frame [simp]:
  "addedRepositories (openAdr adr s) = addedRepositories s"
  "repoObj (openAdr adr s) = repoObj s"
  "adrObj (openAdr adr s) = adrObj s"
  "nextAdr (openAdr adr s) = nextAdr s"
  "mode (openAdr adr s) = mode s"
  by (simp_all add: openAdr_def Let_def)

lemma openAnyAdr_frame [simp]:
  "addedRepositories (openAnyAdr s) = addedRepositories s"
  "repoObj (openAnyAdr s) = repoObj s"
  "adrObj (openAnyAdr s) = adrObj s"
  "nextAdr (openAnyAdr s) = nextAdr s"
  "mode (openAnyAdr s) = mode s"
  by (simp_all add: openAnyAdr_def Let_def)

lemma ensureSomeAdrIsOpened_frame [simp]:
  "addedRepositories (ensureSomeAdrIsOpened s) = addedRepositories s"
  "repoObj (ensureSomeAdrIsOpened s) = repoObj s"
  "adrObj (ensureSomeAdrIsOpened s) = adrObj s"
  "nextAdr (ensureSomeAdrIsOpened s) = nextAdr s"
  "mode (ensureSomeAdrIsOpened s) = mode s"
  by (simp_all add: ensureSomeAdrIsOpened_def)

subsection \<open>The invariant after \<^verbatim>\<open>ensureSomeAdrIsOpened\<close>\<close>

lemma isValidAdr_cong:
  "adrObj s' = adrObj s \<Longrightarrow> isValidAdr s' adr = isValidAdr s adr"
  by (cases adr) (simp_all add: isValidAdr_def)

lemma reachable_cong:
  "repoObj s' = repoObj s \<Longrightarrow> addedRepositories s' = addedRepositories s
   \<Longrightarrow> reachable s' adr = reachable s adr"
  by (simp add: reachable_def)

lemma openAdr_invariant:
  "currentlyEditedAdr s = None \<Longrightarrow> openedAdrInvariant (openAdr adr s)"
  using find_includes_None [of s adr "addedRepositories s"]
  by (auto simp: openAdr_def Let_def openedAdrInvariant_def isValidAdr_def reachable_def)

lemma openAnyAdr_invariant:
  "currentlyEditedAdr s = None \<Longrightarrow> openedAdrInvariant (openAnyAdr s)"
  by (simp add: openAnyAdr_def Let_def openAdr_invariant) (simp add: openedAdrInvariant_def)

lemma ensureSomeAdrIsOpened_invariant:
  "openedAdrInvariant (ensureSomeAdrIsOpened s)"
proof (cases "currentlyEditedAdr s = None \<or> \<not> isValidAdr s (currentlyEditedAdr s)
         \<or> \<not> reachable s (currentlyEditedAdr s)")
  case True
  then show ?thesis
    by (simp add: ensureSomeAdrIsOpened_def openAnyAdr_invariant)
next
  case False
  then show ?thesis
    by (auto simp: ensureSomeAdrIsOpened_def openedAdrInvariant_def)
qed

lemma addRepositories_invariant:
  "fst (addRepositories repoList s) = None
   \<Longrightarrow> openedAdrInvariant (snd (addRepositories repoList s))"
  by (auto simp: addRepositories_def Let_def ensureSomeAdrIsOpened_invariant
      split: if_splits)

lemma removeRepository_invariant: "openedAdrInvariant (removeRepository repo s)"
  by (simp add: removeRepository_def ensureSomeAdrIsOpened_invariant)

lemma deleteAdr_invariant: "openedAdrInvariant (deleteAdr adr repo s)"
  by (simp add: deleteAdr_def Let_def ensureSomeAdrIsOpened_invariant)

subsection \<open>Indices and splices\<close>

lemma findIndex_ge: "- 1 \<le> findIndex P xs"
  by (induction xs) (auto simp: Let_def)

lemma findIndex_neg_iff: "(findIndex P xs < 0) = (\<forall>x\<in>set xs. \<not> P x)"
  using findIndex_ge by (induction xs) (auto simp: Let_def)

lemma findIndex_not_found: "\<forall>x\<in>set xs. \<not> P x \<Longrightarrow> findIndex P xs = - 1"
  by (induction xs) (auto simp: Let_def)

lemma splice_js_zero: "splice_js 0 (Suc 0) [] (y # ys) = ([y], ys)"
  by (simp add: splice_js_def)

lemma splice_js_Suc:
  "0 \<le> i \<Longrightarrow> splice_js (i + 1) (Suc 0) [] (y # ys)
     = (fst (splice_js i (Suc 0) [] ys), y # snd (splice_js i (Suc 0) [] ys))"
  by (simp add: splice_js_def Let_def nat_add_distrib min_def)

lemma splice_js_findIndex:
  "x \<in> set xs \<Longrightarrow> splice_js (findIndex (\<lambda>y. y = x) xs) (Suc 0) [] xs = ([x], remove1 x xs)"
proof (induction xs)
  case Nil
  then show ?case by simp
next
  case (Cons y ys)
  show ?case
  proof (cases "y = x")
    case True
    then show ?thesis by (simp add: splice_js_zero)
  next
    case False
    with Cons.prems have mem: "x \<in> set ys" by simp
    then have nn: "0 \<le> findIndex (\<lambda>y. y = x) ys"
      using findIndex_neg_iff [of "\<lambda>y. y = x" ys] by fastforce
    with False Cons.IH [OF mem] show ?thesis
      by (simp add: Let_def splice_js_Suc)
  qed
qed

lemma splice_js_minus_one:
  "xs \<noteq> [] \<Longrightarrow> splice_js (- 1) (Suc 0) [] xs = ([last xs], butlast xs)"
  by (cases xs rule: rev_cases) (auto simp: splice_js_def Let_def nat_diff_distrib)

lemma foldr_max_ids:
  "foldr max (map int ns) (- 1) = (if ns = [] then - 1 else int (Max (set ns)))"
  by (induction ns) (auto simp: max_def)

subsection \<open>The history of repository \<^verbatim>\<open>o/e\<close>\<close>

lemma storeE0_eq: "storeE0 = storeE adrA adrA 1 [] [] []"
  by (simp add: storeE0_def storeE_def example_defs open_defs fun_eq_iff)

lemma storeE1_eq: "storeE1 = storeE adrT adrA 2 [1] [1] []"
  by (simp add: storeE1_def storeE0_eq storeE_def createNewAdr_def addAdr_def math_max_def number_add1_def
      toString_0 padStart_0 adrT_def fun_eq_iff repoE_def)

lemma storeE2_eq: "storeE2 = storeE adrP adrA 2 [1] [] []"
  by (simp add: storeE2_def storeE1_eq storeE_def commit_defs adrT_def adrP_def fun_eq_iff repoE_def)

lemma storeE3_eq: "storeE3 = storeE adrP adrA 2 [] [] [Some 1]"
  by (simp add: storeE3_def storeE2_eq storeE_def deleteAdr_def splice_js_def open_defs
      fun_eq_iff repoE_def)

lemma storeE4_eq: "storeE4 = storeE adrP adrT 3 [2] [2] [Some 1]"
  by (simp add: storeE4_def storeE3_eq storeE_def createNewAdr_def addAdr_def math_max_def number_add1_def
      toString_0 padStart_0 adrT_def fun_eq_iff repoE_def)

lemma storeE5_eq: "storeE5 = storeE adrP adrP 3 [2] [] [Some 1]"
  by (simp add: storeE5_def storeE4_eq storeE_def commit_defs adrT_def adrP_def fun_eq_iff repoE_def)

lemma storeE6_eq: "storeE6 = storeE adrP adrP 3 [] [] [Some 1, Some 2]"
  by (simp add: storeE6_def storeE5_eq storeE_def deleteAdr_def splice_js_def open_defs
      fun_eq_iff repoE_def)

subsection \<open>Loops that collect\<close>

lemma dataStructureDataCommit_eq:
  "dataStructureDataCommit file fileType =
     (if rd (path file) = None then Inl TypeError else Inr (commitFileOf file fileType))"
  by (auto simp: dataStructureDataCommit_def commitFileOf_def split: option.splits)

lemma for_collect_select:
  "for_collect (\<lambda>x. if sel x then (if ok x then Inr [out x] else Inl TypeError) else Inr [])
     xs acc =
     (if list_all ok (filter sel xs) then Inr (acc @ map out (filter sel xs))
      else Inl TypeError)"
  by (induction xs arbitrary: acc) simp_all

lemma for_collect_nested:
  "for_collect (\<lambda>x. if sel x then (if list_all ok (inner x) then Inr (map out (inner x))
                                  else Inl TypeError)
                    else Inr [])
     xs acc =
     (if list_all ok (concat (map inner (filter sel xs)))
      then Inr (acc @ map out (concat (map inner (filter sel xs))))
      else Inl TypeError)"
  by (induction xs arbitrary: acc) simp_all

lemma for_collect_all:
  "for_collect (\<lambda>x. if ok x then Inr [out x] else Inl TypeError) xs acc =
     (if list_all ok xs then Inr (acc @ map out xs) else Inl TypeError)"
  by (induction xs arbitrary: acc) simp_all

lemma changedFilesInRepo_collects:
  "changedFilesInRepo repoName s =
     (if list_all (hasPath s) (changedAdrs repoName s)
      then Inr (map (\<lambda>a. commitFileOf (adrObj s a) ''changed'') (changedAdrs repoName s))
      else Inl TypeError)"
proof -
  let ?sel = "\<lambda>a. newAdr (adrObj s a) = None
                \<and> rd (editedMd (adrObj s a)) \<noteq> rd (originalMd (adrObj s a))"
  let ?out = "\<lambda>a. commitFileOf (adrObj s a) ''changed''"
  have body: "(\<lambda>changedFile.
       if newAdr (adrObj s changedFile) = None
       then if rd (editedMd (adrObj s changedFile)) \<noteq> rd (originalMd (adrObj s changedFile))
            then (case dataStructureDataCommit (adrObj s changedFile) ''changed'' of
                    Inl e \<Rightarrow> Inl e | Inr f \<Rightarrow> Inr [f])
            else Inr []
       else Inr [])
     = (\<lambda>x. if ?sel x then (if hasPath s x then Inr [?out x] else Inl TypeError) else Inr [])"
    by (auto simp: fun_eq_iff dataStructureDataCommit_eq hasPath_def)
  show ?thesis
    unfolding changedFilesInRepo_def changedAdrs_def reposNamed_def body for_collect_select
      append_Nil for_collect_nested
    by (rule refl)
qed

lemma newFilesInRepo_returns:
  "newFilesInRepo repoName s =
     (if list_all (hasPath s) (newAdrsOf repoName s)
      then Inr (map (\<lambda>a. commitFileOf (adrObj s a) ''new'') (newAdrsOf repoName s))
      else Inl TypeError)"
proof -
  have body: "(\<lambda>newFile. case dataStructureDataCommit (adrObj s newFile) ''new'' of
                             Inl e \<Rightarrow> Inl e | Inr f \<Rightarrow> Inr [f])
     = (\<lambda>x. if hasPath s x then Inr [commitFileOf (adrObj s x) ''new''] else Inl TypeError)"
    by (auto simp: fun_eq_iff dataStructureDataCommit_eq hasPath_def)
  show ?thesis
    unfolding newFilesInRepo_def newAdrsOf_def reposNamed_def body for_collect_all
      append_Nil for_collect_nested
    by (rule refl)
qed

lemma deletedFilesInRepo_returns:
  "deletedFilesInRepo repoName s =
     (if list_all (\<lambda>d. pathOfEntry s d \<noteq> None) (deletedAdrsOf repoName s)
      then Inr (map (deletedFileOf s) (deletedAdrsOf repoName s))
      else Inl TypeError)"
proof -
  have body: "(\<lambda>deletedFile.
                 case Option.bind deletedFile (\<lambda>d. rd (path (adrObj s d))) of
                   None \<Rightarrow> Inl TypeError
                 | Some p \<Rightarrow>
                     Inr [\<lparr>title = nth_js (split_js (CHR ''/'') p) 2,
                           file_value = Absent, file_path = p,
                           fileSelected = False, fileStatus = ''deleted''\<rparr>])
     = (\<lambda>x. if pathOfEntry s x \<noteq> None then Inr [deletedFileOf s x] else Inl TypeError)"
    by (auto simp: fun_eq_iff deletedFileOf_def pathOfEntry_def
        split: option.splits Option.bind_splits)
  show ?thesis
    unfolding deletedFilesInRepo_def deletedAdrsOf_def reposNamed_def body for_collect_all
      append_Nil for_collect_nested
    by (rule refl)
qed

lemma filter_distinct_name:
  "distinct (map f xs) \<Longrightarrow> filter (\<lambda>x. n = f x) xs = [] \<or> (\<exists>r. filter (\<lambda>x. n = f x) xs = [r])"
proof (induction xs)
  case Nil
  then show ?case by simp
next
  case (Cons x xs)
  show ?case
  proof (cases "n = f x")
    case True
    with Cons.prems have "filter (\<lambda>y. n = f y) xs = []"
      by (auto simp: filter_empty_conv)
    with True show ?thesis by simp
  next
    case False
    with Cons show ?thesis by simp
  qed
qed

lemma file_path_commitFileOf:
  "hasPath s a \<Longrightarrow> Some (file_path (commitFileOf (adrObj s a) t)) = rd (path (adrObj s a))"
  by (auto simp: commitFileOf_def hasPath_def)

lemma file_path_deletedFileOf:
  "pathOfEntry s d \<noteq> None \<Longrightarrow> Some (file_path (deletedFileOf s d)) = pathOfEntry s d"
  by (auto simp: deletedFileOf_def)

lemma changedFilesInRepo_example:
  "changedFilesInRepo ''o/r'' closedStore
     = Inr [\<lparr>title = Some ''0000-a.md'', file_value = Str ''new'',
             file_path = ''docs/adr/0000-a.md'', fileSelected = False,
             fileStatus = ''changed''\<rparr>]"
  by (simp add: example_defs changedFilesInRepo_def dataStructureDataCommit_def nth_js_def)

subsection \<open>Strings\<close>







subsection \<open>The commit when paths are pairwise different\<close>

lemma findIndex_nth_distinct:
  "distinct xs \<Longrightarrow> i < length xs \<Longrightarrow> findIndex (\<lambda>y. y = xs ! i) xs = int i"
proof (induction xs arbitrary: i)
  case Nil
  then show ?case by simp
next
  case (Cons x xs)
  show ?case
  proof (cases i)
    case 0
    then show ?thesis by simp
  next
    case (Suc j)
    with Cons.prems have j: "j < length xs" and d: "distinct xs" and ne: "x \<noteq> xs ! j"
      by auto
    from Cons.IH [OF d j] ne Suc show ?thesis
      by (auto simp: Let_def)
  qed
qed

lemma splice_js_at:
  "i < length xs \<Longrightarrow> splice_js (int i) (Suc 0) [] xs = ([xs ! i], take i xs @ drop (Suc i) xs)"
  by (simp add: splice_js_def Let_def min_def take_Suc_conv_app_nth hd_drop_conv_nth
      Cons_nth_drop_Suc [symmetric])

lemma spliceLoop_unique:
  assumes "\<forall>x\<in>set xs. matches x = Inr (m x)"
    and "distinct xs"
    and "\<forall>x\<in>set xs. \<forall>y\<in>set xs. m x \<longrightarrow> m y \<longrightarrow> x = y"
  shows "spliceLoop matches i xs = (None, take i xs @ filter (\<lambda>x. \<not> m x) (drop i xs))"
  using assms
proof (induction matches i xs rule: spliceLoop.induct)
  case (1 matches i xs)
  show ?case
  proof (cases "i < length xs")
    case False
    then show ?thesis by (simp add: spliceLoop.simps)
  next
    case True
    then have mem: "xs ! i \<in> set xs" by simp
    with "1.prems" have mi: "matches (xs ! i) = Inr (m (xs ! i))" by blast
    have dr: "drop i xs = xs ! i # drop (Suc i) xs"
      using True by (simp add: Cons_nth_drop_Suc)
    show ?thesis
    proof (cases "m (xs ! i)")
      case False
      have "spliceLoop matches i xs = spliceLoop matches (i + 1) xs"
        using True mi False by (subst spliceLoop.simps) simp
      also have "\<dots> = (None, take (i + 1) xs @ filter (\<lambda>x. \<not> m x) (drop (i + 1) xs))"
        using "1.IH"(2) [OF True mi False] "1.prems" by blast
      finally show ?thesis
        using True False dr by (simp add: take_Suc_conv_app_nth)
    next
      case mt: True
      let ?ys = "take i xs @ drop (Suc i) xs"
      have sp: "snd (splice_js (indexOf xs (xs ! i)) 1 [] xs) = ?ys"
        using True "1.prems"(2)
        by (simp add: indexOf_def findIndex_nth_distinct splice_js_at)
      have sub: "set ?ys \<subseteq> set xs"
        using set_take_subset [of i xs] set_drop_subset [of "Suc i" xs] by auto
      have "distinct (take i xs @ drop i xs)"
        using "1.prems"(2) by simp
      then have dall: "distinct (take i xs @ xs ! i # drop (Suc i) xs)"
        using dr by simp
      from dall have dys: "distinct ?ys" by auto
      from dall have notin: "xs ! i \<notin> set ?ys" by auto
      have nomatch: "\<forall>y\<in>set ?ys. \<not> m y"
        using notin sub mt mem "1.prems"(3) by blast
      have "spliceLoop matches i xs = spliceLoop matches (i + 1) ?ys"
        using True mi mt sp by (subst spliceLoop.simps) simp
      also have "\<dots> = (None, take (i + 1) ?ys @ filter (\<lambda>x. \<not> m x) (drop (i + 1) ?ys))"
      proof -
        have "\<forall>x\<in>set ?ys. matches x = Inr (m x)"
          using "1.prems"(1) sub by blast
        moreover have "\<forall>x\<in>set ?ys. \<forall>y\<in>set ?ys. m x \<longrightarrow> m y \<longrightarrow> x = y"
          using nomatch by blast
        ultimately show ?thesis
          using "1.IH"(1) [OF True mi mt] dys sp by simp
      qed
      also have "filter (\<lambda>x. \<not> m x) (drop (i + 1) ?ys) = drop (i + 1) ?ys"
      proof (intro filter_True ballI)
        fix x
        assume "x \<in> set (drop (i + 1) ?ys)"
        then have "x \<in> set ?ys" by (rule in_set_dropD)
        with nomatch show "\<not> m x" by blast
      qed
      finally have "spliceLoop matches i xs
                      = (None, take (i + 1) ?ys @ drop (i + 1) ?ys)" .
      then have "spliceLoop matches i xs = (None, ?ys)"
        by (simp only: append_take_drop_id)
      moreover have "filter (\<lambda>x. \<not> m x) (drop (Suc i) xs) = drop (Suc i) xs"
        using nomatch by (intro filter_True) (auto dest: in_set_dropD)
      ultimately show ?thesis
        using dr mt by simp
    qed
  qed
qed

lemma for_of_settle:
  "for_of (settle isNew p) as s
     = (None, s\<lparr>adrObj := (\<lambda>a. if a \<in> set as \<and> rd (path (adrObj s a)) = Some p
                                then settled isNew (adrObj s a) else adrObj s a)\<rparr>)"
proof (induction as arbitrary: s)
  case Nil
  show ?case by simp
next
  case (Cons a as)
  show ?case
  proof (cases "Some p = rd (path (adrObj s a))")
    case False
    then have "for_of (settle isNew p) (a # as) s = for_of (settle isNew p) as s"
      by (simp add: settle_def)
    with Cons.IH [of s] False show ?thesis
      by (auto simp: fun_eq_iff intro!: arg_cong [where f = "\<lambda>f. s\<lparr>adrObj := f\<rparr>"])
  next
    case True
    let ?s1 = "s\<lparr>adrObj := (adrObj s)(a := settled isNew (adrObj s a))\<rparr>"
    from True have "for_of (settle isNew p) (a # as) s = for_of (settle isNew p) as ?s1"
      by (simp add: settle_def settled_def)
    also have "\<dots> = (None, ?s1\<lparr>adrObj := (\<lambda>b. if b \<in> set as \<and> rd (path (adrObj ?s1 b)) = Some p
                                then settled isNew (adrObj ?s1 b) else adrObj ?s1 b)\<rparr>)"
      by (rule Cons.IH)
    also have "?s1\<lparr>adrObj := (\<lambda>b. if b \<in> set as \<and> rd (path (adrObj ?s1 b)) = Some p
                                then settled isNew (adrObj ?s1 b) else adrObj ?s1 b)\<rparr>
        = s\<lparr>adrObj := (\<lambda>b. if b \<in> set (a # as) \<and> rd (path (adrObj s b)) = Some p
                                then settled isNew (adrObj s b) else adrObj s b)\<rparr>"
      using True by (auto simp: fun_eq_iff settled_def
          intro!: arg_cong [where f = "\<lambda>f. s\<lparr>adrObj := f\<rparr>"])
    finally show ?thesis .
  qed
qed

lemma for_of_no_match:
  "\<forall>x\<in>set xs. \<not> P s x \<Longrightarrow>
   for_of (\<lambda>x s. if P s x then B x s else (None, s)) xs s = (None, s)"
  by (induction xs) simp_all

lemma for_of_single:
  assumes keep: "\<And>x s y. fullName (repoObj (snd (B x s)) y) = fullName (repoObj s y)"
    and d: "distinct (map (\<lambda>x. fullName (repoObj s x)) xs)"
  shows "for_of (\<lambda>x s. if n = fullName (repoObj s x) then B x s else (None, s)) xs s
         = (case filter (\<lambda>x. n = fullName (repoObj s x)) xs of
              [] \<Rightarrow> (None, s)
            | x # _ \<Rightarrow> B x s)"
  using d
proof (induction xs arbitrary: s)
  case Nil
  show ?case by simp
next
  case (Cons x xs)
  show ?case
  proof (cases "n = fullName (repoObj s x)")
    case False
    with Cons show ?thesis by simp
  next
    case True
    obtain e s' where b: "B x s = (e, s')" by (cases "B x s")
    have names: "\<And>y. fullName (repoObj s' y) = fullName (repoObj s y)"
      using keep [of x s] b by simp
    show ?thesis
    proof (cases e)
      case (Some a)
      with True b show ?thesis by simp
    next
      case None
      have "\<forall>y\<in>set xs. \<not> n = fullName (repoObj s' y)"
        using Cons.prems True names by auto
      then have "for_of (\<lambda>x s. if n = fullName (repoObj s x) then B x s else (None, s)) xs s'
                 = (None, s')"
        by (rule for_of_no_match [where P = "\<lambda>s x. n = fullName (repoObj s x)"])
      with True b None show ?thesis by simp
    qed
  qed
qed

lemma distinct_matches_unique:
  "distinct (map key xs) \<Longrightarrow>
   distinct xs \<and> (\<forall>x\<in>set xs. \<forall>y\<in>set xs. key x = k \<longrightarrow> key y = k \<longrightarrow> x = y)"
  by (auto simp: distinct_map dest: inj_onD)

lemma spliceLoop_added:
  assumes "distinct (map (\<lambda>a. rd (path (adrObj s a))) xs)"
  shows "spliceLoop (\<lambda>repoEntry. Inr (Some p = rd (path (adrObj s repoEntry)))) 0 xs
         = (None, filter (\<lambda>a. rd (path (adrObj s a)) \<noteq> Some p) xs)"
proof -
  from distinct_matches_unique [OF assms, of "Some p"]
  have d: "distinct xs"
    and u: "\<forall>x\<in>set xs. \<forall>y\<in>set xs. Some p = rd (path (adrObj s x))
              \<longrightarrow> Some p = rd (path (adrObj s y)) \<longrightarrow> x = y"
    by auto
  have "spliceLoop (\<lambda>repoEntry. Inr (Some p = rd (path (adrObj s repoEntry)))) 0 xs
        = (None, take 0 xs @ filter (\<lambda>x. \<not> Some p = rd (path (adrObj s x))) (drop 0 xs))"
    using d u by (intro spliceLoop_unique) auto
  moreover have "(\<lambda>x. \<not> Some p = rd (path (adrObj s x))) = (\<lambda>a. rd (path (adrObj s a)) \<noteq> Some p)"
    by auto
  ultimately show ?thesis by simp
qed

lemma spliceLoop_deleted:
  assumes "distinct (map (pathOfEntry s) xs)" and "list_all (\<lambda>d. d \<noteq> None) xs"
  shows "spliceLoop (\<lambda>repoEntry. case repoEntry of
                        None \<Rightarrow> Inl TypeError
                      | Some d \<Rightarrow> Inr (Some p = rd (path (adrObj s d)))) 0 xs
         = (None, filter (\<lambda>d. pathOfEntry s d \<noteq> Some p) xs)"
proof -
  from distinct_matches_unique [OF assms(1), of "Some p"]
  have d: "distinct xs"
    and u: "\<forall>x\<in>set xs. \<forall>y\<in>set xs. Some p = pathOfEntry s x
              \<longrightarrow> Some p = pathOfEntry s y \<longrightarrow> x = y"
    by auto
  have ok: "\<forall>x\<in>set xs. (case x of None \<Rightarrow> Inl TypeError
                           | Some d \<Rightarrow> Inr (Some p = rd (path (adrObj s d))))
                         = Inr (Some p = pathOfEntry s x)"
    using assms(2) by (auto simp: list_all_iff pathOfEntry_def)
  have "spliceLoop (\<lambda>repoEntry. case repoEntry of
                        None \<Rightarrow> Inl TypeError
                      | Some d \<Rightarrow> Inr (Some p = rd (path (adrObj s d)))) 0 xs
        = (None, take 0 xs @ filter (\<lambda>x. \<not> Some p = pathOfEntry s x) (drop 0 xs))"
    using ok d u by (rule spliceLoop_unique)
  moreover have "(\<lambda>x. \<not> Some p = pathOfEntry s x) = (\<lambda>d. pathOfEntry s d \<noteq> Some p)"
    by auto
  ultimately show ?thesis by simp
qed

lemma handleUpdateLocalStorageNew_committed:
  assumes wf: "commitWellFormed repoName s" and ty: "pushed_type file = ''new''"
  shows "handleUpdateLocalStorageNew file repoName s = (None, committedAll file repoName s)"
proof -
  let ?B = "\<lambda>repo s.
      (let spliced = spliceLoop (\<lambda>repoEntry. Inr (Some (pushed_path file)
                                                    = rd (path (adrObj s repoEntry))))
                       0 (addedAdrs (repoObj s repo));
           s1 = s\<lparr>repoObj := (repoObj s)
                    (repo := (repoObj s repo)\<lparr>addedAdrs := snd spliced\<rparr>)\<rparr>
       in for_of (settle True (pushed_path file)) (adrs (repoObj s1 repo)) s1)"
  have keep: "\<And>x s y. fullName (repoObj (snd (?B x s)) y) = fullName (repoObj s y)"
    by (simp add: Let_def for_of_settle)
  from wf have d: "distinct (map (\<lambda>x. fullName (repoObj s x)) (addedRepositories s))"
    by (simp add: commitWellFormed_def)
  have "handleUpdateLocalStorageNew file repoName s
        = (case reposNamed repoName s of [] \<Rightarrow> (None, s) | x # _ \<Rightarrow> ?B x s)"
    unfolding handleUpdateLocalStorageNew_def reposNamed_def
    using for_of_single [of ?B s "addedRepositories s" repoName, OF keep d] by simp
  moreover have "?B r s = (None, committed file r s)" if "reposNamed repoName s = r # rs" for r rs
  proof -
    from wf that have "distinct (map (\<lambda>a. rd (path (adrObj s a))) (addedAdrs (repoObj s r)))"
      by (simp add: commitWellFormed_def)
    then show ?thesis
      using ty
      by (simp add: Let_def spliceLoop_added for_of_settle committed_def commitLists_def
          commitObj_def cong: if_cong)
  qed
  ultimately show ?thesis
    by (simp add: committedAll_def split: list.splits)
qed

lemma handleUpdateLocalStorageChanged_committed:
  assumes wf: "commitWellFormed repoName s" and ty: "pushed_type file = ''changed''"
  shows "handleUpdateLocalStorageChanged file repoName s = (None, committedAll file repoName s)"
proof -
  let ?B = "\<lambda>repo s. for_of (settle False (pushed_path file)) (adrs (repoObj s repo)) s"
  have keep: "\<And>x s y. fullName (repoObj (snd (?B x s)) y) = fullName (repoObj s y)"
    by (simp add: for_of_settle)
  from wf have d: "distinct (map (\<lambda>x. fullName (repoObj s x)) (addedRepositories s))"
    by (simp add: commitWellFormed_def)
  have "handleUpdateLocalStorageChanged file repoName s
        = (case reposNamed repoName s of [] \<Rightarrow> (None, s) | x # _ \<Rightarrow> ?B x s)"
    unfolding handleUpdateLocalStorageChanged_def reposNamed_def
    using for_of_single [of ?B s "addedRepositories s" repoName, OF keep d] by simp
  then show ?thesis
    using ty
    by (simp add: committedAll_def for_of_settle committed_def commitLists_def commitObj_def
        cong: if_cong split: list.splits)
qed

lemma handleUpdateLocalStorageDeleted_committed:
  assumes wf: "commitWellFormed repoName s" and ty: "pushed_type file = ''deleted''"
  shows "handleUpdateLocalStorageDeleted file repoName s = (None, committedAll file repoName s)"
proof -
  let ?B = "\<lambda>repo s.
      (let spliced = spliceLoop
                       (\<lambda>repoEntry.
                          case repoEntry of
                            None \<Rightarrow> Inl TypeError
                          | Some d \<Rightarrow> Inr (Some (pushed_path file) = rd (path (adrObj s d))))
                       0 (deletedAdrs (repoObj s repo))
       in (fst spliced,
           s\<lparr>repoObj := (repoObj s)
                (repo := (repoObj s repo)\<lparr>deletedAdrs := snd spliced\<rparr>)\<rparr>))"
  have keep: "\<And>x s y. fullName (repoObj (snd (?B x s)) y) = fullName (repoObj s y)"
    by (simp add: Let_def)
  from wf have d: "distinct (map (\<lambda>x. fullName (repoObj s x)) (addedRepositories s))"
    by (simp add: commitWellFormed_def)
  have "handleUpdateLocalStorageDeleted file repoName s
        = (case reposNamed repoName s of [] \<Rightarrow> (None, s) | x # _ \<Rightarrow> ?B x s)"
    unfolding handleUpdateLocalStorageDeleted_def reposNamed_def
    using for_of_single [of ?B s "addedRepositories s" repoName, OF keep d] by simp
  moreover have "?B r s = (None, committed file r s)" if "reposNamed repoName s = r # rs" for r rs
  proof -
    from wf that have "distinct (map (pathOfEntry s) (deletedAdrs (repoObj s r)))"
      and "list_all (\<lambda>d. d \<noteq> None) (deletedAdrs (repoObj s r))"
      by (simp_all add: commitWellFormed_def)
    then show ?thesis
      using ty
      by (simp add: Let_def spliceLoop_deleted committed_def commitLists_def commitObj_def
          pathOfEntry_def cong: if_cong)
  qed
  ultimately show ?thesis
    by (simp add: committedAll_def split: list.splits)
qed

lemma commitObj_frame [simp]:
  "path (commitObj f as a obj) = path obj"
  "editedMd (commitObj f as a obj) = editedMd obj"
  by (simp_all add: commitObj_def settled_def)

lemma commitLists_frame [simp]:
  "fullName (commitLists f pth R) = fullName R"
  "adrs (commitLists f pth R) = adrs R"
  by (simp_all add: commitLists_def)

lemma commitObj_idem: "commitObj f as a (commitObj f as a obj) = commitObj f as a obj"
  by (auto simp: commitObj_def settled_def)

lemma commitObj_commute:
  "commitObj f as a (commitObj g as a obj) = commitObj g as a (commitObj f as a obj)"
  by (auto simp: commitObj_def settled_def)

lemma commitLists_idem: "commitLists f pth (commitLists f pth R) = commitLists f pth R"
  by (simp add: commitLists_def)

lemma commitLists_commute:
  "commitLists f pth (commitLists g pth R) = commitLists g pth (commitLists f pth R)"
  by (auto simp: commitLists_def conj_commute)

lemma committed_twice:
  "committed g r (committed f r s)
   = s\<lparr>repoObj := (repoObj s)
          (r := commitLists g (\<lambda>a. rd (path (adrObj s a)))
                  (commitLists f (\<lambda>a. rd (path (adrObj s a))) (repoObj s r))),
       adrObj := (\<lambda>a. commitObj g (adrs (repoObj s r)) a
                          (commitObj f (adrs (repoObj s r)) a (adrObj s a)))\<rparr>"
  by (simp add: committed_def)

lemma committed_idem: "committed f r (committed f r s) = committed f r s"
  by (simp add: committed_twice commitObj_idem commitLists_idem) (simp add: committed_def)

lemma committed_commute:
  "committed f r (committed g r s) = committed g r (committed f r s)"
  by (simp add: committed_twice commitObj_commute [of f] commitLists_commute [of f])

lemma committed_fields [simp]:
  "addedRepositories (committed f r s) = addedRepositories s"
  "fullName (repoObj (committed f r s) x) = fullName (repoObj s x)"
  "adrs (repoObj (committed f r s) x) = adrs (repoObj s x)"
  "addedAdrs (repoObj (committed f r s) x)
     = (if x = r then addedAdrs (commitLists f (\<lambda>a. rd (path (adrObj s a))) (repoObj s r))
        else addedAdrs (repoObj s x))"
  "deletedAdrs (repoObj (committed f r s) x)
     = (if x = r then deletedAdrs (commitLists f (\<lambda>a. rd (path (adrObj s a))) (repoObj s r))
        else deletedAdrs (repoObj s x))"
  "path (adrObj (committed f r s) a) = path (adrObj s a)"
  by (simp_all add: committed_def)

lemma reposNamed_committed [simp]: "reposNamed n (committed f r s) = reposNamed n s"
  by (simp add: reposNamed_def)

lemma pathOfEntry_committed [simp]: "pathOfEntry (committed f r s) d = pathOfEntry s d"
  by (cases d) (simp_all add: pathOfEntry_def)

lemma reposNamed_committedAll [simp]: "reposNamed n (committedAll f n s) = reposNamed n s"
  by (simp add: committedAll_def split: list.splits)

lemma commitLists_distinct:
  "distinct (map pth (addedAdrs R)) \<Longrightarrow> distinct (map pth (addedAdrs (commitLists f pth R)))"
  "distinct (map (\<lambda>d. Option.bind d pth) (deletedAdrs R))
   \<Longrightarrow> distinct (map (\<lambda>d. Option.bind d pth) (deletedAdrs (commitLists f pth R)))"
  "d \<in> set (deletedAdrs (commitLists f pth R)) \<Longrightarrow> d \<in> set (deletedAdrs R)"
  by (auto simp: commitLists_def distinct_map_filter split: if_splits)

lemma commitWellFormed_committed:
  assumes "commitWellFormed n s"
  shows "commitWellFormed n (committed f r s)"
proof -
  let ?pth = "\<lambda>a. rd (path (adrObj s a))"
  have p: "pathOfEntry s = (\<lambda>d. Option.bind d ?pth)"
    by (simp add: pathOfEntry_def fun_eq_iff)
  have p': "pathOfEntry (committed f r s) = pathOfEntry s"
    by (simp add: fun_eq_iff)
  have one: "distinct (map ?pth (addedAdrs (repoObj (committed f r s) x)))
             \<and> list_all (\<lambda>d. d \<noteq> None) (deletedAdrs (repoObj (committed f r s) x))
             \<and> distinct (map (pathOfEntry s) (deletedAdrs (repoObj (committed f r s) x)))"
    if "distinct (map ?pth (addedAdrs (repoObj s x)))
        \<and> list_all (\<lambda>d. d \<noteq> None) (deletedAdrs (repoObj s x))
        \<and> distinct (map (pathOfEntry s) (deletedAdrs (repoObj s x)))" for x
    using that unfolding p
    by (auto simp: commitLists_distinct(1,2) list_all_iff dest: commitLists_distinct(3))
  from assms have names: "distinct (map (\<lambda>r. fullName (repoObj s r)) (addedRepositories s))"
    and each: "list_all (\<lambda>x. distinct (map ?pth (addedAdrs (repoObj s x)))
                  \<and> list_all (\<lambda>d. d \<noteq> None) (deletedAdrs (repoObj s x))
                  \<and> distinct (map (pathOfEntry s) (deletedAdrs (repoObj s x))))
                (reposNamed n s)"
    by (simp_all add: commitWellFormed_def)
  have "list_all (\<lambda>x. distinct (map ?pth (addedAdrs (repoObj (committed f r s) x)))
                  \<and> list_all (\<lambda>d. d \<noteq> None) (deletedAdrs (repoObj (committed f r s) x))
                  \<and> distinct (map (pathOfEntry s) (deletedAdrs (repoObj (committed f r s) x))))
          (reposNamed n s)"
    by (rule list.pred_mono_strong [OF each]) (rule one)
  with names show ?thesis
    unfolding commitWellFormed_def p' reposNamed_committed
    by (simp del: committed_fields(4,5))
qed

lemma commitWellFormed_committedAll:
  "commitWellFormed n s \<Longrightarrow> commitWellFormed n (committedAll f n s)"
  by (simp add: committedAll_def commitWellFormed_committed split: list.splits)

lemma committedAll_idem: "committedAll f n (committedAll f n s) = committedAll f n s"
  by (simp add: committedAll_def committed_idem split: list.splits)

lemma committedAll_commute:
  "committedAll f n (committedAll g n s) = committedAll g n (committedAll f n s)"
  by (simp add: committedAll_def committed_commute [of f] split: list.splits)

lemma committedAll_other:
  "pushed_type f \<noteq> ''new'' \<Longrightarrow> pushed_type f \<noteq> ''changed'' \<Longrightarrow> pushed_type f \<noteq> ''deleted''
   \<Longrightarrow> committedAll f n s = s"
  by (simp add: committedAll_def committed_def commitLists_def commitObj_def split: list.splits)

lemma updateLocalStorageAfterCommit_fold:
  "commitWellFormed n s \<Longrightarrow>
   updateLocalStorageAfterCommit fs n s = (None, fold (\<lambda>f. committedAll f n) fs s)"
proof (induction fs arbitrary: s)
  case Nil
  show ?case by (simp add: updateLocalStorageAfterCommit_def)
next
  case (Cons f fs)
  have step: "(if pushed_type f = ''new'' then handleUpdateLocalStorageNew f n s
               else if pushed_type f = ''changed'' then handleUpdateLocalStorageChanged f n s
               else if pushed_type f = ''deleted'' then handleUpdateLocalStorageDeleted f n s
               else (None, s))
              = (None, committedAll f n s)"
    using Cons.prems
    by (simp add: handleUpdateLocalStorageNew_committed handleUpdateLocalStorageChanged_committed
        handleUpdateLocalStorageDeleted_committed committedAll_other)
  have "updateLocalStorageAfterCommit (f # fs) n s
        = updateLocalStorageAfterCommit fs n (committedAll f n s)"
    unfolding updateLocalStorageAfterCommit_def using step by simp
  with Cons.IH [OF commitWellFormed_committedAll [OF Cons.prems]] show ?case by simp
qed

lemma fold_commute_step:
  assumes "\<And>f g s. C f (C g s) = C g (C f s)"
  shows "fold C fs (C f s) = C f (fold C fs s)"
proof (induction fs arbitrary: s)
  case Nil
  show ?case by simp
next
  case (Cons a fs)
  have "fold C (a # fs) (C f s) = fold C fs (C a (C f s))"
    by simp
  also have "\<dots> = fold C fs (C f (C a s))"
    by (simp only: assms [of a f])
  also have "\<dots> = C f (fold C fs (C a s))"
    by (rule Cons.IH)
  finally show ?case by simp
qed

lemma fold_idem:
  assumes idem: "\<And>f s. C f (C f s) = C f s"
    and comm: "\<And>f g s. C f (C g s) = C g (C f s)"
  shows "fold C fs (fold C fs s) = fold C fs s"
proof (induction fs arbitrary: s)
  case Nil
  show ?case by simp
next
  case (Cons f fs)
  have "fold C (f # fs) (fold C (f # fs) s) = fold C fs (C f (fold C fs (C f s)))"
    by simp
  also have "\<dots> = fold C fs (C f (C f (fold C fs s)))"
    by (simp add: fold_commute_step [of C, OF comm])
  also have "\<dots> = C f (fold C fs (fold C fs s))"
    by (simp add: idem fold_commute_step [of C, OF comm])
  also have "\<dots> = C f (fold C fs s)"
    by (simp add: Cons.IH)
  also have "\<dots> = fold C (f # fs) s"
    by (simp add: fold_commute_step [of C, OF comm])
  finally show ?case .
qed

lemma commitWellFormed_fold:
  "commitWellFormed n s \<Longrightarrow> commitWellFormed n (fold (\<lambda>f. committedAll f n) fs s)"
  by (induction fs arbitrary: s) (simp_all add: commitWellFormed_committedAll)

lemma updateLocalStorageAfterCommit_idempotent:
  assumes "commitWellFormed repoName s"
  shows "fst (updateLocalStorageAfterCommit pushedFiles repoName s) = None
    \<and> updateLocalStorageAfterCommit pushedFiles repoName
          (snd (updateLocalStorageAfterCommit pushedFiles repoName s))
        = updateLocalStorageAfterCommit pushedFiles repoName s"
  using assms
  by (simp add: updateLocalStorageAfterCommit_fold commitWellFormed_fold
      fold_idem [of "\<lambda>f. committedAll f repoName", OF committedAll_idem committedAll_commute])

subsection \<open>The claims\<close>

text \<open>
  C1. The claim: after every mutation of the store, \<open>currentlyEditedAdr\<close>, when set, is
  valid and in the \<open>adrs\<close> of some added repository, also after \<^verbatim>\<open>updateRepository\<close>
  with a replacement that has no ADR at the path of the open one. The code keeps the
  invariant in \<^verbatim>\<open>addRepositories\<close>, \<^verbatim>\<open>removeRepository\<close> and \<^verbatim>\<open>deleteAdr\<close>, which end
  with \<^verbatim>\<open>ensureSomeAdrIsOpened\<close> (the three lemmas above). \<^verbatim>\<open>updateRepository\<close> does
  not: in \<open>storeA\<close> the ADR 0 of repository \<^verbatim>\<open>o/r\<close> is open; after the repository is
  replaced by a copy without ADRs, ADR 0 is still the open one and no added repository
  holds it.
\<close>

theorem updateRepository_orphans_opened_adr:
  "openedAdrInvariant storeA \<and> currentlyEditedAdr storeA = Some 0
   \<and> fst (updateRepository 1 storeA) = None
   \<and> addedRepositories (snd (updateRepository 1 storeA)) = [1]
   \<and> adrs (repoObj (snd (updateRepository 1 storeA)) 1) = []
   \<and> currentlyEditedAdr (snd (updateRepository 1 storeA)) = Some 0
   \<and> \<not> reachable (snd (updateRepository 1 storeA)) (Some 0)
   \<and> \<not> openedAdrInvariant (snd (updateRepository 1 storeA))"
  by (simp add: example_defs open_defs openedAdrInvariant_def updateRepository_def
      splice_js_def)

text \<open>
  C2. When some repository of the list has the \<open>fullName\<close> of an added repository,
  \<^verbatim>\<open>addRepositories\<close> throws the message that ends with the colliding names (all of
  them, in the order of the list, joined by a comma and a space) and the store is as it
  was. Otherwise nothing is thrown and \<open>addedRepositories\<close> is the old list followed by
  the new repositories in their order.
\<close>

theorem addRepositories_collision_or_append:
  "(list_ex (\<lambda>r. fullName (repoObj s r)
                 \<in> set (map (\<lambda>x. fullName (repoObj s x)) (addedRepositories s))) repoList
    \<longrightarrow> addRepositories repoList s
        = (Some (Thrown (''I won'' @ [CHR 0x27] @ ''t add an already added repository to the store! ''
             @ join_js '', ''
                 (map (\<lambda>r. fullName (repoObj s r))
                    (filter (\<lambda>r. fullName (repoObj s r)
                                \<in> set (map (\<lambda>x. fullName (repoObj s x)) (addedRepositories s)))
                       repoList)))), s))
   \<and> (\<not> list_ex (\<lambda>r. fullName (repoObj s r)
                 \<in> set (map (\<lambda>x. fullName (repoObj s x)) (addedRepositories s))) repoList
    \<longrightarrow> fst (addRepositories repoList s) = None
        \<and> addedRepositories (snd (addRepositories repoList s))
            = addedRepositories s @ repoList)"
  by (auto simp: addRepositories_def Let_def list_ex_iff filter_empty_conv)

theorem addRepositories_collision_or_append_witness:
  "list_ex (\<lambda>r. fullName (repoObj storeA r)
               \<in> set (map (\<lambda>x. fullName (repoObj storeA x)) (addedRepositories storeA))) [2, 1]
   \<and> addRepositories [2, 1] storeA
       = (Some (Thrown ''I won't add an already added repository to the store! o/r''), storeA)
   \<and> \<not> list_ex (\<lambda>r. fullName (repoObj storeA r)
               \<in> set (map (\<lambda>x. fullName (repoObj storeA x)) (addedRepositories storeA))) [2, 3]
   \<and> fst (addRepositories [2, 3] storeA) = None
   \<and> map (\<lambda>r. fullName (repoObj storeA r)) [2, 3] = [''o/e'', ''o/g'']
   \<and> addedRepositories (snd (addRepositories [2, 3] storeA)) = [0, 2, 3]"
  using addRepositories_collision_or_append [of storeA "[2, 1]"]
    addRepositories_collision_or_append [of storeA "[2, 3]"]
  by (simp add: example_defs open_defs)

text \<open>
  C3. For an ADR that is in \<open>repo.adrs\<close>, \<^verbatim>\<open>deleteAdr\<close> removes it (its first
  occurrence) from \<open>repo.adrs\<close>. When it is in \<open>repo.addedAdrs\<close> too, it is removed from
  there as well and \<open>deletedAdrs\<close> stays as it was; when it is not, \<open>addedAdrs\<close> stays
  as it was and the ADR is appended to \<open>deletedAdrs\<close>. In arrays without repetition the
  ADR is in neither \<open>adrs\<close> nor \<open>addedAdrs\<close> afterwards.
\<close>

theorem deleteAdr_member:
  assumes "adr \<in> set (adrs (repoObj s repo))"
  shows "adrs (repoObj (deleteAdr adr repo s) repo) = remove1 adr (adrs (repoObj s repo))
    \<and> (adr \<in> set (addedAdrs (repoObj s repo)) \<longrightarrow>
         addedAdrs (repoObj (deleteAdr adr repo s) repo) = remove1 adr (addedAdrs (repoObj s repo))
         \<and> deletedAdrs (repoObj (deleteAdr adr repo s) repo) = deletedAdrs (repoObj s repo))
    \<and> (adr \<notin> set (addedAdrs (repoObj s repo)) \<longrightarrow>
         addedAdrs (repoObj (deleteAdr adr repo s) repo) = addedAdrs (repoObj s repo)
         \<and> deletedAdrs (repoObj (deleteAdr adr repo s) repo)
             = deletedAdrs (repoObj s repo) @ [Some adr])
    \<and> (distinct (adrs (repoObj s repo)) \<longrightarrow>
         adr \<notin> set (adrs (repoObj (deleteAdr adr repo s) repo)))
    \<and> (distinct (addedAdrs (repoObj s repo)) \<longrightarrow>
         adr \<notin> set (addedAdrs (repoObj (deleteAdr adr repo s) repo)))"
proof -
  have sp: "splice_js (findIndex (\<lambda>y. y = adr) (adrs (repoObj s repo))) (Suc 0) []
              (adrs (repoObj s repo)) = ([adr], remove1 adr (adrs (repoObj s repo)))"
    using assms by (rule splice_js_findIndex)
  show ?thesis
  proof (cases "adr \<in> set (addedAdrs (repoObj s repo))")
    case True
    then have nn: "0 \<le> findIndex (\<lambda>y. y = adr) (addedAdrs (repoObj s repo))"
      using findIndex_neg_iff [of "\<lambda>y. y = adr" "addedAdrs (repoObj s repo)"] by fastforce
    from True nn sp splice_js_findIndex [OF True] show ?thesis
      by (simp add: deleteAdr_def Let_def)
  next
    case False
    then have "findIndex (\<lambda>y. y = adr) (addedAdrs (repoObj s repo)) = - 1"
      by (auto intro!: findIndex_not_found)
    with False sp show ?thesis
      by (simp add: deleteAdr_def Let_def nth_js_def)
  qed
qed

theorem deleteAdr_member_witness:
  "1 \<in> set (adrs (repoObj storeN 0)) \<and> 1 \<in> set (addedAdrs (repoObj storeN 0))
   \<and> adrs (repoObj (deleteAdr 1 0 storeN) 0) = [0]
   \<and> addedAdrs (repoObj (deleteAdr 1 0 storeN) 0) = []
   \<and> deletedAdrs (repoObj (deleteAdr 1 0 storeN) 0) = []
   \<and> 0 \<in> set (adrs (repoObj storeN 0)) \<and> 0 \<notin> set (addedAdrs (repoObj storeN 0))
   \<and> adrs (repoObj (deleteAdr 0 0 storeN) 0) = [1]
   \<and> addedAdrs (repoObj (deleteAdr 0 0 storeN) 0) = [1]
   \<and> deletedAdrs (repoObj (deleteAdr 0 0 storeN) 0) = [Some 0]"
  using deleteAdr_member [of 1 storeN 0] deleteAdr_member [of 0 storeN 0]
  by (simp add: example_defs open_defs createNewAdr_def addAdr_def math_max_def
      number_add1_def)

text \<open>
  C10. For a repository with a non-empty \<open>adrs\<close> and an ADR that is in neither \<open>adrs\<close>
  nor \<open>addedAdrs\<close>, \<^verbatim>\<open>deleteAdr\<close> removes the last element of \<open>adrs\<close> and appends that
  element, which is not the ADR given, to \<open>deletedAdrs\<close>: \<^verbatim>\<open>findIndex\<close> answers \<^verbatim>\<open>-1\<close>
  and \<^verbatim>\<open>splice(-1, 1)\<close> removes the last element.
\<close>

theorem deleteAdr_not_found:
  assumes "adrs (repoObj s repo) \<noteq> []"
    and "adr \<notin> set (adrs (repoObj s repo))"
    and "adr \<notin> set (addedAdrs (repoObj s repo))"
  shows "adrs (repoObj (deleteAdr adr repo s) repo) = butlast (adrs (repoObj s repo))
    \<and> deletedAdrs (repoObj (deleteAdr adr repo s) repo)
        = deletedAdrs (repoObj s repo) @ [Some (last (adrs (repoObj s repo)))]
    \<and> addedAdrs (repoObj (deleteAdr adr repo s) repo) = addedAdrs (repoObj s repo)
    \<and> last (adrs (repoObj s repo)) \<noteq> adr"
proof -
  have i1: "findIndex (\<lambda>y. y = adr) (adrs (repoObj s repo)) = - 1"
    using assms(2) by (auto intro!: findIndex_not_found)
  have i2: "findIndex (\<lambda>y. y = adr) (addedAdrs (repoObj s repo)) = - 1"
    using assms(3) by (auto intro!: findIndex_not_found)
  have l: "last (adrs (repoObj s repo)) \<noteq> adr"
    using assms(1,2) last_in_set by metis
  from i1 i2 l splice_js_minus_one [OF assms(1)] show ?thesis
    by (simp add: deleteAdr_def Let_def nth_js_def)
qed

theorem deleteAdr_not_found_witness:
  "adrs (repoObj storeN 0) \<noteq> [] \<and> 7 \<notin> set (adrs (repoObj storeN 0))
   \<and> 7 \<notin> set (addedAdrs (repoObj storeN 0))
   \<and> adrs (repoObj (deleteAdr 7 0 storeN) 0) = [0]
   \<and> deletedAdrs (repoObj (deleteAdr 7 0 storeN) 0) = [Some 1]
   \<and> addedAdrs (repoObj (deleteAdr 7 0 storeN) 0) = [1]"
  using deleteAdr_not_found [of storeN 0 7]
  by (simp add: example_defs open_defs createNewAdr_def addAdr_def math_max_def
      number_add1_def)

text \<open>
  C4. The claim: for an added repository \<^verbatim>\<open>createNewAdr\<close> returns a new ADR whose id is
  the greatest id in \<open>repo.adrs\<close> plus one. The code adds one on JavaScript numbers: in
  \<open>storeBig\<close> the only ADR of the repository has the id \<open>2\<^sup>5\<^sup>3\<close>, the sum is rounded
  back to \<open>2\<^sup>5\<^sup>3\<close>, and the new ADR gets the id that is already there.
\<close>

theorem createNewAdr_id_counterexample:
  "0 \<in> set (addedRepositories storeBig) \<and> adrs (repoObj storeBig 0) = [0]
   \<and> adr_id (adrObj storeBig 0) = 9007199254740992
   \<and> fst (createNewAdr ''title'' ''# title'' 0 storeBig) = Some 1
   \<and> adr_id (adrObj (snd (createNewAdr ''title'' ''# title'' 0 storeBig)) 1)
       = 9007199254740992
   \<and> adr_id (adrObj (snd (createNewAdr ''title'' ''# title'' 0 storeBig)) 1)
       \<noteq> Max ((\<lambda>a. adr_id (adrObj storeBig a)) ` set (adrs (repoObj storeBig 0))) + 1"
  by (simp add: storeBig_def example_defs open_defs createNewAdr_def addAdr_def math_max_def
      number_add1_def)

text \<open>
  C4, as the code has it. For a repository that is not in \<open>addedRepositories\<close>,
  \<^verbatim>\<open>createNewAdr\<close> returns \<^verbatim>\<open>undefined\<close> and the store is as it was. For an added
  repository it returns a new ADR object that is in \<open>repo.adrs\<close> and in
  \<open>repo.addedAdrs\<close> afterwards; when every id in \<open>repo.adrs\<close> is below \<open>2\<^sup>5\<^sup>3\<close>, its id
  is the greatest id in \<open>repo.adrs\<close> plus one (0 when \<open>repo.adrs\<close> is empty) and its
  path is \<^verbatim>\<open>docs/adr/\<close>, the id padded with zeros to four digits, a hyphen, the
  template's title and \<^verbatim>\<open>.md\<close>.
\<close>

theorem createNewAdr_result:
  "(repo \<notin> set (addedRepositories s) \<longrightarrow> createNewAdr tmplTitle tmplMd repo s = (None, s))
   \<and> (repo \<in> set (addedRepositories s) \<longrightarrow>
        fst (createNewAdr tmplTitle tmplMd repo s) = Some (nextAdr s)
        \<and> nextAdr s \<in> set (adrs (repoObj (snd (createNewAdr tmplTitle tmplMd repo s)) repo))
        \<and> nextAdr s \<in> set (addedAdrs (repoObj (snd (createNewAdr tmplTitle tmplMd repo s)) repo))
        \<and> (list_all (\<lambda>a. adr_id (adrObj s a) < 9007199254740992) (adrs (repoObj s repo)) \<longrightarrow>
             adr_id (adrObj (snd (createNewAdr tmplTitle tmplMd repo s)) (nextAdr s))
               = (if adrs (repoObj s repo) = [] then 0
                  else Max ((\<lambda>a. adr_id (adrObj s a)) ` set (adrs (repoObj s repo))) + 1)
             \<and> path (adrObj (snd (createNewAdr tmplTitle tmplMd repo s)) (nextAdr s))
                 = Str (''docs/adr/''
                        @ padStart 4 (CHR ''0'')
                            (toString
                               (if adrs (repoObj s repo) = [] then 0
                                else Max ((\<lambda>a. adr_id (adrObj s a))
                                            ` set (adrs (repoObj s repo))) + 1))
                        @ ''-'' @ tmplTitle @ ''.md'')))"
proof -
  let ?ids = "map (\<lambda>a. adr_id (adrObj s a)) (adrs (repoObj s repo))"
  have mx: "math_max (map (\<lambda>a. int (adr_id (adrObj s a))) (adrs (repoObj s repo))) (- 1)
        = (if adrs (repoObj s repo) = [] then - 1
           else int (Max ((\<lambda>a. adr_id (adrObj s a)) ` set (adrs (repoObj s repo)))))"
    using foldr_max_ids [of ?ids] by (simp add: math_max_def comp_def)
  have small: "Max ((\<lambda>a. adr_id (adrObj s a)) ` set (adrs (repoObj s repo))) < 9007199254740992"
    if "list_all (\<lambda>a. adr_id (adrObj s a) < 9007199254740992) (adrs (repoObj s repo))"
      and "adrs (repoObj s repo) \<noteq> []"
    using that by (simp add: list_all_iff)
  have add: "nat (number_add1 (int m)) = Suc m" if "m < 9007199254740992" for m :: nat
    using that by (simp add: number_add1_def)
  have zero: "nat (number_add1 (- 1)) = 0"
    by (simp add: number_add1_def)
  show ?thesis
    using small by (auto simp: createNewAdr_def addAdr_def Let_def mx add zero)
qed

theorem createNewAdr_result_witness:
  "7 \<notin> set (addedRepositories storeA)
   \<and> createNewAdr ''title'' ''# title'' 7 storeA = (None, storeA)
   \<and> 0 \<in> set (addedRepositories storeA)
   \<and> list_all (\<lambda>a. adr_id (adrObj storeA a) < 9007199254740992) (adrs (repoObj storeA 0))
   \<and> fst (createNewAdr ''title'' ''# title'' 0 storeA) = Some 1
   \<and> adr_id (adrObj storeN 1) = 1
   \<and> path (adrObj storeN 1) = Str ''docs/adr/0001-title.md''
   \<and> adrs (repoObj storeN 0) = [0, 1] \<and> addedAdrs (repoObj storeN 0) = [1]"
  using createNewAdr_result [of 7 storeA "''title''" "''# title''"]
    createNewAdr_result [of 0 storeA "''title''" "''# title''"]
  by (simp add: example_defs open_defs createNewAdr_def addAdr_def math_max_def
      number_add1_def toString_Suc0 padStart_1)

text \<open>
  C5. The claim: \<^verbatim>\<open>changedFilesInRepo\<close> returns the ADRs of \<open>adrs\<close> that are not flagged
  new, \<^verbatim>\<open>newAdr\<close> being a boolean whose absence means false, and whose \<open>editedMd\<close>
  differs from \<open>originalMd\<close>. The code asks whether the property \<^verbatim>\<open>newAdr\<close> is there,
  not for its value: in \<open>storeF\<close> the ADR 0 carries \<^verbatim>\<open>newAdr: false\<close> and was edited, so
  the claim selects it, and the code returns nothing.
\<close>

theorem changedFilesInRepo_flag_counterexample:
  "newAdr (adrObj storeF 0) = Some False
   \<and> rd (editedMd (adrObj storeF 0)) \<noteq> rd (originalMd (adrObj storeF 0))
   \<and> changedAdrs_spec ''o/r'' storeF = [0]
   \<and> changedFilesInRepo ''o/r'' storeF = Inr []"
  by (simp add: storeF_def example_defs changedAdrs_spec_def reposNamed_def
      changedFilesInRepo_def)

text \<open>
  C5, as the code has it. \<^verbatim>\<open>changedFilesInRepo\<close> returns, for the added repositories
  with the name and in their order, the ADRs of \<open>adrs\<close> that have no \<^verbatim>\<open>newAdr\<close>
  property and whose \<open>editedMd\<close> differs from \<open>originalMd\<close>, each as the record of its
  third path segment as title, its \<open>editedMd\<close> as value, its path, and the status
  \<^verbatim>\<open>changed\<close>; an ADR whose \<open>editedMd\<close> equals its \<open>originalMd\<close> is not among them. When
  one of the selected ADRs has no path, a \<^verbatim>\<open>TypeError\<close> is thrown instead.
\<close>

theorem changedFilesInRepo_returns:
  "changedFilesInRepo repoName s =
     (if list_all (hasPath s) (changedAdrs repoName s)
      then Inr (map (\<lambda>a. commitFileOf (adrObj s a) ''changed'') (changedAdrs repoName s))
      else Inl TypeError)"
  by (rule changedFilesInRepo_collects)

text \<open>
  C6. The claim: \<^verbatim>\<open>updateLocalStorageAfterCommit\<close> applied a second time with the same
  batch changes nothing. The loops of \<^verbatim>\<open>handleUpdateLocalStorageNew\<close> and
  \<^verbatim>\<open>handleUpdateLocalStorageDeleted\<close> splice the array they iterate, so the entry that
  follows a removed entry is skipped. In \<open>storeE6\<close>, reached by creating, publishing and
  deleting two ADRs one after the other, \<open>deletedAdrs\<close> holds both ADRs under one path:
  the first call for that path removes the first of them only, and the second call
  removes the other. In a store where no two entries of \<open>addedAdrs\<close> and no two
  entries of \<open>deletedAdrs\<close> share a path, nothing is skipped and the second call
  changes nothing (lemma \<open>updateLocalStorageAfterCommit_idempotent\<close> above).
\<close>

theorem updateLocalStorageAfterCommit_not_idempotent:
  "storeE6 = storeE adrP adrP 3 [] [] [Some 1, Some 2]
   \<and> updateLocalStorageAfterCommit [pushedDeleted] ''o/e'' storeE6
       = (None, storeE adrP adrP 3 [] [] [Some 2])
   \<and> updateLocalStorageAfterCommit [pushedDeleted] ''o/e'' (storeE adrP adrP 3 [] [] [Some 2])
       = (None, storeE adrP adrP 3 [] [] [])
   \<and> deletedAdrs (repoObj (storeE adrP adrP 3 [] [] [Some 2]) 2)
       \<noteq> deletedAdrs (repoObj (storeE adrP adrP 3 [] [] []) 2)"
  by (simp add: storeE6_eq storeE_def commit_defs adrP_def repoE_def fun_eq_iff)



text \<open>
  C8. The claim: in every repository state that satisfies the invariants of the data
  model, no path is in more than one of the lists of \<^verbatim>\<open>changedFilesInRepo\<close>,
  \<^verbatim>\<open>newFilesInRepo\<close> and \<^verbatim>\<open>deletedFilesInRepo\<close>. In \<open>storeE4\<close> the invariants hold, and
  the path of the deleted first ADR is the path of the new second ADR: it is in the
  list of new files and in the list of deleted files.
\<close>

theorem diff_sets_path_reuse_counterexample:
  "distinct (map (\<lambda>r. fullName (repoObj storeE4 r)) (addedRepositories storeE4))
   \<and> list_all (repositoryInvariants_spec storeE4) (reposNamed ''o/e'' storeE4)
   \<and> newFilesInRepo ''o/e'' storeE4
       = Inr [\<lparr>title = Some ''0000-title.md'', file_value = Str ''# title'',
               file_path = ''docs/adr/0000-title.md'', fileSelected = False,
               fileStatus = ''new''\<rparr>]
   \<and> deletedFilesInRepo ''o/e'' storeE4
       = Inr [\<lparr>title = Some ''0000-title.md'', file_value = Absent,
               file_path = ''docs/adr/0000-title.md'', fileSelected = False,
               fileStatus = ''deleted''\<rparr>]"
  by (simp add: storeE4_eq storeE_def adrT_def adrP_def repoE_def diff_defs)

text \<open>
  C8, as the code has it. When the added repositories have pairwise different names
  and the repository named satisfies the invariants of the data model and, in
  addition, no entry of its \<open>deletedAdrs\<close> has the path of an entry of its \<open>adrs\<close>,
  the three lists are returned and no path is in more than one of them.
\<close>

theorem diff_sets_disjoint:
  assumes names: "distinct (map (\<lambda>r. fullName (repoObj s r)) (addedRepositories s))"
    and inv: "list_all (repositoryInvariants_spec s) (reposNamed repoName s)"
    and reuse: "list_all (noPathReuse s) (reposNamed repoName s)"
  shows "\<exists>cs ns ds.
           changedFilesInRepo repoName s = Inr cs \<and> newFilesInRepo repoName s = Inr ns
           \<and> deletedFilesInRepo repoName s = Inr ds
           \<and> set (map file_path cs) \<inter> set (map file_path ns) = {}
           \<and> set (map file_path cs) \<inter> set (map file_path ds) = {}
           \<and> set (map file_path ns) \<inter> set (map file_path ds) = {}"
proof -
  from names have "reposNamed repoName s = [] \<or> (\<exists>r. reposNamed repoName s = [r])"
    unfolding reposNamed_def by (rule filter_distinct_name)
  then show ?thesis
  proof
    assume "reposNamed repoName s = []"
    then show ?thesis
      by (simp add: changedFilesInRepo_collects newFilesInRepo_returns
          deletedFilesInRepo_returns changedAdrs_def newAdrsOf_def deletedAdrsOf_def)
  next
    assume "\<exists>r. reposNamed repoName s = [r]"
    then obtain r where r: "reposNamed repoName s = [r]" ..
    let ?R = "repoObj s r"
    let ?sel = "\<lambda>a. newAdr (adrObj s a) = None
                  \<and> rd (editedMd (adrObj s a)) \<noteq> rd (originalMd (adrObj s a))"
    from inv r have I: "repositoryInvariants_spec s r" by simp
    from reuse r have U: "noPathReuse s r" by simp
    have ca: "changedAdrs repoName s = filter ?sel (adrs ?R)"
      and na: "newAdrsOf repoName s = addedAdrs ?R"
      and da: "deletedAdrsOf repoName s = deletedAdrs ?R"
      using r by (simp_all add: changedAdrs_def newAdrsOf_def deletedAdrsOf_def)
    from I have paths: "\<forall>a\<in>set (adrs ?R). hasPath s a"
      and dist: "distinct (map (\<lambda>a. rd (path (adrObj s a))) (adrs ?R))"
      and sub: "set (addedAdrs ?R) \<subseteq> set (adrs ?R)"
      and flag: "\<forall>a\<in>set (adrs ?R). (newAdr (adrObj s a) = Some True) = (a \<in> set (addedAdrs ?R))"
      and dels: "\<forall>d\<in>set (deletedAdrs ?R). pathOfEntry s d \<noteq> None"
      by (auto simp: repositoryInvariants_spec_def list_all_iff)
    from U have reuse': "\<forall>d\<in>set (deletedAdrs ?R). \<forall>a\<in>set (adrs ?R).
                            pathOfEntry s d \<noteq> rd (path (adrObj s a))"
      by (auto simp: noPathReuse_def list_all_iff)
    have c: "changedFilesInRepo repoName s
               = Inr (map (\<lambda>a. commitFileOf (adrObj s a) ''changed'') (filter ?sel (adrs ?R)))"
      using paths by (simp add: changedFilesInRepo_collects ca list_all_iff)
    have n: "newFilesInRepo repoName s
               = Inr (map (\<lambda>a. commitFileOf (adrObj s a) ''new'') (addedAdrs ?R))"
      using paths sub by (auto simp: newFilesInRepo_returns na list_all_iff)
    have d: "deletedFilesInRepo repoName s = Inr (map (deletedFileOf s) (deletedAdrs ?R))"
      using dels by (simp add: deletedFilesInRepo_returns da list_all_iff)
    have inj: "inj_on (\<lambda>a. rd (path (adrObj s a))) (set (adrs ?R))"
      using dist by (simp add: distinct_map)
    have cn: "set (map file_path (map (\<lambda>a. commitFileOf (adrObj s a) ''changed'')
                                    (filter ?sel (adrs ?R))))
              \<inter> set (map file_path (map (\<lambda>a. commitFileOf (adrObj s a) ''new'')
                                        (addedAdrs ?R))) = {}"
    proof (rule ccontr)
      assume "\<not> ?thesis"
      then obtain a b where a: "a \<in> set (adrs ?R)" "newAdr (adrObj s a) = None"
        and b: "b \<in> set (addedAdrs ?R)"
        and eq: "file_path (commitFileOf (adrObj s a) ''changed'')
                 = file_path (commitFileOf (adrObj s b) ''new'')"
        by auto
      from b sub have b': "b \<in> set (adrs ?R)" by auto
      from a(1) b' paths eq file_path_commitFileOf [of s a] file_path_commitFileOf [of s b]
      have "rd (path (adrObj s a)) = rd (path (adrObj s b))" by metis
      with inj a(1) b' have "a = b" by (auto dest: inj_onD)
      with a b flag show False by auto
    qed
    have del_adrs: "file_path (deletedFileOf s x) \<noteq> file_path (commitFileOf (adrObj s a) t)"
      if "x \<in> set (deletedAdrs ?R)" "a \<in> set (adrs ?R)" for x a t
      using that paths dels reuse' file_path_commitFileOf [of s a t]
        file_path_deletedFileOf [of s x] by metis
    have cd: "set (map file_path (map (\<lambda>a. commitFileOf (adrObj s a) ''changed'')
                                    (filter ?sel (adrs ?R))))
              \<inter> set (map file_path (map (deletedFileOf s) (deletedAdrs ?R))) = {}"
    proof (rule ccontr)
      assume "\<not> ?thesis"
      then obtain a x where "a \<in> set (adrs ?R)" "x \<in> set (deletedAdrs ?R)"
        "file_path (deletedFileOf s x) = file_path (commitFileOf (adrObj s a) ''changed'')"
        by auto metis
      with del_adrs show False by blast
    qed
    have nd: "set (map file_path (map (\<lambda>a. commitFileOf (adrObj s a) ''new'') (addedAdrs ?R)))
              \<inter> set (map file_path (map (deletedFileOf s) (deletedAdrs ?R))) = {}"
    proof (rule ccontr)
      assume "\<not> ?thesis"
      then obtain a x where "a \<in> set (addedAdrs ?R)" "x \<in> set (deletedAdrs ?R)"
        "file_path (deletedFileOf s x) = file_path (commitFileOf (adrObj s a) ''new'')"
        by auto metis
      with del_adrs sub show False by blast
    qed
    show ?thesis
      unfolding c n d using cn cd nd by blast
  qed
qed

theorem diff_sets_disjoint_witness:
  "distinct (map (\<lambda>r. fullName (repoObj storeW r)) (addedRepositories storeW))
   \<and> list_all (repositoryInvariants_spec storeW) (reposNamed ''o/r'' storeW)
   \<and> list_all (noPathReuse storeW) (reposNamed ''o/r'' storeW)
   \<and> map file_path (projr (changedFilesInRepo ''o/r'' storeW)) = [''docs/adr/0000-a.md'']
   \<and> map file_path (projr (newFilesInRepo ''o/r'' storeW)) = [''docs/adr/0001-b.md'']
   \<and> map file_path (projr (deletedFilesInRepo ''o/r'' storeW)) = [''docs/adr/0002-c.md'']"
  using diff_sets_disjoint [of storeW "''o/r''"]
  by (simp add: storeW_def adrA_def adrB_def adrC_def repoA_def repoE_def diff_defs)

text \<open>
  C9. \<^verbatim>\<open>openAdr(adr)\<close> changes nothing when \<open>adr\<close> is the ADR that is open. When it is
  not, and \<open>adr\<close> is valid and in the \<open>adrs\<close> of some added repository, the first such
  repository becomes the current one, \<open>adr\<close> becomes the open ADR and one
  \<^verbatim>\<open>open-adr\<close> event with \<open>adr\<close> is emitted, everything else staying as it was; in every
  other case the whole store (the emitted events included) is unchanged.
\<close>

theorem openAdr_cases:
  "(adr = currentlyEditedAdr s \<longrightarrow> openAdr adr s = s) \<and>
   (adr \<noteq> currentlyEditedAdr s \<and> isValidAdr s adr \<and> reachable s adr \<longrightarrow>
      (\<exists>repo. find (\<lambda>r. includes_js (adrs (repoObj s r)) adr) (addedRepositories s) = Some repo
         \<and> repo \<in> set (addedRepositories s) \<and> includes_js (adrs (repoObj s repo)) adr
         \<and> openAdr adr s = s\<lparr>currentRepository := Some repo, currentlyEditedAdr := adr,
                              emitted := emitted s @ [OpenAdrEvent adr]\<rparr>)) \<and>
   (adr \<noteq> currentlyEditedAdr s \<and> \<not> (isValidAdr s adr \<and> reachable s adr) \<longrightarrow>
      openAdr adr s = s)"
proof (intro conjI impI)
  assume "adr = currentlyEditedAdr s"
  then show "openAdr adr s = s" by (simp add: openAdr_def)
next
  assume a: "adr \<noteq> currentlyEditedAdr s \<and> isValidAdr s adr \<and> reachable s adr"
  then have "find (\<lambda>r. includes_js (adrs (repoObj s r)) adr) (addedRepositories s) \<noteq> None"
    using find_includes_None [of s adr "addedRepositories s"] by simp
  then obtain repo where
    f: "find (\<lambda>r. includes_js (adrs (repoObj s r)) adr) (addedRepositories s) = Some repo"
    by blast
  from f a find_includes_Some [OF f] show
    "\<exists>repo. find (\<lambda>r. includes_js (adrs (repoObj s r)) adr) (addedRepositories s) = Some repo
         \<and> repo \<in> set (addedRepositories s) \<and> includes_js (adrs (repoObj s repo)) adr
         \<and> openAdr adr s = s\<lparr>currentRepository := Some repo, currentlyEditedAdr := adr,
                              emitted := emitted s @ [OpenAdrEvent adr]\<rparr>"
    by (simp add: openAdr_def)
next
  assume a: "adr \<noteq> currentlyEditedAdr s \<and> \<not> (isValidAdr s adr \<and> reachable s adr)"
  then show "openAdr adr s = s"
    using find_includes_None [of s adr "addedRepositories s"]
    by (auto simp: openAdr_def Let_def)
qed

theorem openAdr_cases_witness:
  "Some 0 \<noteq> currentlyEditedAdr closedStore \<and> isValidAdr closedStore (Some 0)
   \<and> reachable closedStore (Some 0)
   \<and> openAdr (Some 0) closedStore
       = closedStore\<lparr>currentRepository := Some 0, currentlyEditedAdr := Some 0,
                       emitted := [OpenAdrEvent (Some 0)]\<rparr>
   \<and> Some 0 = currentlyEditedAdr storeA \<and> openAdr (Some 0) storeA = storeA
   \<and> Some 7 \<noteq> currentlyEditedAdr storeA \<and> \<not> reachable storeA (Some 7)
   \<and> openAdr (Some 7) storeA = storeA"
  using openAdr_cases [of "Some 0" closedStore] openAdr_cases [of "Some 0" storeA]
    openAdr_cases [of "Some 7" storeA]
  by (simp add: example_defs open_defs)

end
